theory Spec2Isabelle
  imports Main "HOL-Library.AList"
begin

section \<open>Python values, dictionaries and exceptions\<close>

text \<open>
  Objects that are shared and mutated (comments, submissions) live in a store and are
  referred to by address; everything else is a value. A dictionary is an association
  list with unique keys: \<open>map_of\<close> reads it and \<open>AList.update\<close> writes it.
\<close>

type_synonym addr = nat

datatype pyval =
    VNone
  | VBool bool
  | VInt int
  | VStr string
  | VList "pyval list"
  | VDict "(string \<times> pyval) list"
  | VObj string "(string \<times> pyval) list"
  | VRef addr

type_synonym pydict = "(string \<times> pyval) list"

text \<open>
  The exceptions of the modelled code. \<open>InvalidURL\<close> is a subclass of
  \<open>ClientException\<close> (praw.exceptions, see tests/unit/test_exceptions.py).
\<close>

datatype error =
    TypeError string
  | ValueError string
  | AssertionError string
  | AttributeError string
  | IndexError
  | KeyError string
  | ClientException string
  | InvalidURL string
  | RecursionError

fun is_ClientException :: "error \<Rightarrow> bool" where
  "is_ClientException (ClientException m) = True"
| "is_ClientException (InvalidURL u) = True"
| "is_ClientException e = False"

text \<open>Python truthiness (\<open>if x:\<close>, \<open>not x\<close>).\<close>

fun truthy :: "pyval \<Rightarrow> bool" where
  "truthy VNone = False"
| "truthy (VBool b) = b"
| "truthy (VInt i) = (i \<noteq> 0)"
| "truthy (VStr s) = (s \<noteq> [])"
| "truthy (VList xs) = (xs \<noteq> [])"
| "truthy (VDict d) = (d \<noteq> [])"
| "truthy (VObj c d) = True"
| "truthy (VRef a) = True"

text \<open>\<open>dict.update\<close>: the entries of the second dictionary, in order, written into the first.\<close>

fun dict_update :: "pydict \<Rightarrow> pydict \<Rightarrow> pydict" where
  "dict_update d [] = d"
| "dict_update d ((k, v) # kvs) = dict_update (AList.update k v d) kvs"

section \<open>Strings\<close>

text \<open>\<open>s.split(sep)\<close> for a one-character separator.\<close>

fun split_on :: "char \<Rightarrow> string \<Rightarrow> string list" where
  "split_on c [] = [[]]"
| "split_on c (x # xs) =
     (if x = c then [] # split_on c xs
      else (case split_on c xs of
              [] \<Rightarrow> [[x]]
            | y # ys \<Rightarrow> (x # y) # ys))"

text \<open>\<open>s.split(sep, n)\<close>: at most \<open>n\<close> splits, from the left.\<close>

fun split_max :: "char \<Rightarrow> nat \<Rightarrow> string \<Rightarrow> string list" where
  "split_max c 0 s = [s]"
| "split_max c (Suc n) [] = [[]]"
| "split_max c (Suc n) (x # xs) =
     (if x = c then [] # split_max c n xs
      else (case split_max c (Suc n) xs of
              [] \<Rightarrow> [[x]]
            | y # ys \<Rightarrow> (x # y) # ys))"

text \<open>\<open>s.rsplit(sep, n)\<close>: at most \<open>n\<close> splits, from the right.\<close>

definition rsplit_max :: "char \<Rightarrow> nat \<Rightarrow> string \<Rightarrow> string list" where
  "rsplit_max c n s = rev (map rev (split_max c n (rev s)))"

text \<open>\<open>s.rstrip(c)\<close> for one character.\<close>

definition rstrip :: "char \<Rightarrow> string \<Rightarrow> string" where
  "rstrip c s = rev (dropWhile (\<lambda>x. x = c) (rev s))"

text \<open>\<open>xs.index(x)\<close>: the first position of \<open>x\<close>; \<open>None\<close> stands for the ValueError.\<close>

fun list_index :: "'a list \<Rightarrow> 'a \<Rightarrow> nat option" where
  "list_index [] x = None"
| "list_index (y # ys) x =
     (if y = x then Some 0
      else (case list_index ys x of None \<Rightarrow> None | Some i \<Rightarrow> Some (Suc i)))"

text \<open>\<open>xs[i]\<close> for a non-negative index, with its IndexError.\<close>

definition list_get :: "'a list \<Rightarrow> nat \<Rightarrow> error + 'a" where
  "list_get xs i = (if i < length xs then Inr (xs ! i) else Inl IndexError)"

section \<open>URL parts (RedditBase._url_parts)\<close>

text \<open>
  Modelled from the spec: \<open>RedditBase._url_parts\<close> (praw/models/reddit/base.py) is not
  among the source files; \<open>Comment.id_from_url\<close> calls it. It parses the URL with the
  standard library's \<open>urlparse\<close>, raises \<open>InvalidURL\<close> when the URL has no network
  location, and returns the path, stripped of trailing slashes, split at slashes. The
  model of \<open>urlparse\<close> covers the scheme, the network location after \<open>//\<close> and the path
  up to the query or fragment.
\<close>

definition scheme_char :: "char \<Rightarrow> bool" where
  "scheme_char c =
     (let n = of_char c :: nat in
        (65 \<le> n \<and> n \<le> 90) \<or> (97 \<le> n \<and> n \<le> 122) \<or> (48 \<le> n \<and> n \<le> 57)
        \<or> c = CHR ''+'' \<or> c = CHR ''-'' \<or> c = CHR ''.'')"

definition alpha_char :: "char \<Rightarrow> bool" where
  "alpha_char c = (let n = of_char c :: nat in (65 \<le> n \<and> n \<le> 90) \<or> (97 \<le> n \<and> n \<le> 122))"

definition strip_scheme :: "string \<Rightarrow> string" where
  "strip_scheme url =
     (let pre = takeWhile (\<lambda>c. c \<noteq> CHR '':'') url in
        if CHR '':'' \<in> set url \<and> pre \<noteq> [] \<and> alpha_char (hd pre) \<and> list_all scheme_char pre
        then drop (Suc (length pre)) url
        else url)"

definition urlparse_netloc :: "string \<Rightarrow> string" where
  "urlparse_netloc url =
     (let rest = strip_scheme url in
        if take 2 rest = ''//''
        then takeWhile (\<lambda>c. c \<noteq> CHR ''/'' \<and> c \<noteq> CHR ''?'' \<and> c \<noteq> CHR ''#'') (drop 2 rest)
        else [])"

definition urlparse_path :: "string \<Rightarrow> string" where
  "urlparse_path url =
     (let rest = strip_scheme url;
          after = (if take 2 rest = ''//''
                   then dropWhile (\<lambda>c. c \<noteq> CHR ''/'' \<and> c \<noteq> CHR ''?'' \<and> c \<noteq> CHR ''#'') (drop 2 rest)
                   else rest)
      in takeWhile (\<lambda>c. c \<noteq> CHR ''?'' \<and> c \<noteq> CHR ''#'') after)"

definition url_parts :: "string \<Rightarrow> error + string list" where
  "url_parts url =
     (if urlparse_netloc url = [] then Inl (InvalidURL url)
      else Inr (split_on CHR ''/'' (rstrip CHR ''/'' (urlparse_path url))))"

section \<open>Comment.id_from_url (comment.py, lines 63 to 74)\<close>

text \<open>
  The function that splits the URL is a parameter, so that what \<open>id_from_url\<close> itself
  does with the parts is stated for every such function; \<open>url_parts\<close> is the one the
  class uses.
\<close>

definition id_from_url :: "(string \<Rightarrow> error + string list) \<Rightarrow> string \<Rightarrow> error + string" where
  "id_from_url url_parts_fn url =
     (case url_parts_fn url of
        Inl e \<Rightarrow> Inl e
      | Inr parts \<Rightarrow>
          (case list_index parts ''comments'' of
             None \<Rightarrow> Inl (InvalidURL url)
           | Some comment_index \<Rightarrow>
               if int (length parts) - 4 \<noteq> int comment_index then Inl (InvalidURL url)
               else Inr (last parts)))"

section \<open>The client environment\<close>

text \<open>
  What the modelled classes reach through \<open>self._reddit\<close>. The classes and tables
  behind these entries (praw.config, praw.objector, praw.const, the Subreddit and
  UserSubreddit classes, the HTTP client) are not among the source files, so each is
  a parameter. Every request the modelled code sends is recorded in the store.
\<close>

record reddit =
  kinds :: "string \<Rightarrow> string"
    \<comment> \<open>\<open>reddit.config.kinds[name]\<close>\<close>
  objectify_children :: "pyval \<Rightarrow> addr list"
    \<comment> \<open>\<open>reddit._objector.objectify(data=value).children\<close>: the things of a raw listing\<close>
  subreddit :: "pyval \<Rightarrow> pyval"
    \<comment> \<open>\<open>reddit.subreddit(value)\<close>\<close>
  user_subreddit :: "pyval \<Rightarrow> pyval"
    \<comment> \<open>\<open>UserSubreddit(reddit=reddit, _data=value)\<close>\<close>
  api_path_submission :: "string \<Rightarrow> string"
    \<comment> \<open>\<open>API_PATH["submission"].format(id=...)\<close>\<close>
  api_path_info :: string
    \<comment> \<open>\<open>API_PATH["info"]\<close>\<close>
  request_json :: "string \<Rightarrow> pydict \<Rightarrow> pyval"
    \<comment> \<open>the network: the raw answer of \<open>reddit.request(method="GET", path=..., params=...)\<close>\<close>
  get_children :: "string \<Rightarrow> pydict \<Rightarrow> addr list"
    \<comment> \<open>the network: \<open>reddit.get(path, params=...)[1].children\<close>, the things the objector
        built from the answer, which are objects of the store\<close>

section \<open>PRAWBase.__init__ and RedditBase.__init__\<close>

text \<open>
  Modelled from the spec: the base classes (praw/models/base.py and
  praw/models/reddit/base.py) are not among the source files; the constructors of
  \<open>Comment\<close> and \<open>Redditor\<close> end by calling them. \<open>PRAWBase.__init__\<close> sets every entry
  of a non-empty payload as an attribute, through the class's own \<open>__setattr__\<close>.
  \<open>RedditBase.__init__\<close> then stores the fetched flag and raises ValueError when the
  identity attribute (\<open>STR_FIELD\<close>) is still missing, unless the extra attribute it is
  told to check is present (tests/unit/models/reddit/test_comment.py, lines 38 to 41).
\<close>

fun set_all :: "('o \<Rightarrow> string \<Rightarrow> pyval \<Rightarrow> error + 'o) \<Rightarrow> 'o \<Rightarrow> pydict \<Rightarrow> error + 'o" where
  "set_all setattr self [] = Inr self"
| "set_all setattr self ((k, v) # kvs) =
     (case setattr self k v of
        Inl e \<Rightarrow> Inl e
      | Inr self' \<Rightarrow> set_all setattr self' kvs)"

definition PRAWBase_init :: "('o \<Rightarrow> string \<Rightarrow> pyval \<Rightarrow> error + 'o) \<Rightarrow> 'o \<Rightarrow> pyval \<Rightarrow> error + 'o" where
  "PRAWBase_init setattr self data =
     (if truthy data then
        (case data of
           VDict items \<Rightarrow> set_all setattr self items
         | _ \<Rightarrow> Inl (AttributeError ''items''))
      else Inr self)"

definition RedditBase_init ::
  "('o \<Rightarrow> string \<Rightarrow> pyval \<Rightarrow> error + 'o) \<Rightarrow> ('o \<Rightarrow> string \<Rightarrow> bool) \<Rightarrow> ('o \<Rightarrow> bool \<Rightarrow> 'o) \<Rightarrow>
   string \<Rightarrow> string option \<Rightarrow> 'o \<Rightarrow> pyval \<Rightarrow> bool \<Rightarrow> error + 'o" where
  "RedditBase_init setattr in_dict set_fetched STR_FIELD extra_attribute self data fetched =
     (case PRAWBase_init setattr self data of
        Inl e \<Rightarrow> Inl e
      | Inr self1 \<Rightarrow>
          (let self2 = set_fetched self1 fetched in
             if \<not> in_dict self2 STR_FIELD then
               (case extra_attribute of
                  Some x \<Rightarrow>
                    if in_dict self2 x then Inr self2
                    else Inl (ValueError (''An invalid value was specified for '' @ STR_FIELD @ ''.''))
                | None \<Rightarrow> Inl (ValueError (''An invalid value was specified for '' @ STR_FIELD @ ''.'')))
             else Inr self2))"

section \<open>Redditor (redditor.py)\<close>

text \<open>
  A redditor is a value: its \<open>__dict__\<close>, private entries included. The three identity
  inputs are Python values, \<open>VNone\<close> for None: \<open>from_data\<close> forwards whatever it is given
  as \<open>name\<close>, and the assertion on \<open>_data\<close> itself asks whether it is a dict.
\<close>

definition Redditor_usage_msg :: string where
  "Redditor_usage_msg =
     ''Exactly one of '' @ [CHR 0x27] @ ''name'' @ [CHR 0x27] @ '', '' @ [CHR 0x27] @ ''fullname''
       @ [CHR 0x27] @ '', or '' @ [CHR 0x27] @ ''_data'' @ [CHR 0x27] @ '' must be provided.''"

text \<open>\<open>Redditor.__setattr__\<close> (lines 162 to 168).\<close>

definition Redditor_setattr :: "reddit \<Rightarrow> pydict \<Rightarrow> string \<Rightarrow> pyval \<Rightarrow> pydict" where
  "Redditor_setattr r self name v =
     AList.update name (if name = ''subreddit'' \<and> truthy v then user_subreddit r v else v) self"

definition in_pydict :: "pydict \<Rightarrow> string \<Rightarrow> bool" where
  "in_pydict d k = (map_of d k \<noteq> None)"

fun is_dict :: "pyval \<Rightarrow> bool" where
  "is_dict (VDict d) = True"
| "is_dict v = False"

text \<open>\<open>key in value\<close>, for a value that is a dict.\<close>

fun dict_has_key :: "pyval \<Rightarrow> string \<Rightarrow> bool" where
  "dict_has_key (VDict d) k = in_pydict d k"
| "dict_has_key v k = False"

text \<open>\<open>Redditor.__init__\<close> (lines 132 to 160).\<close>

definition Redditor_init :: "reddit \<Rightarrow> pyval \<Rightarrow> pyval \<Rightarrow> pyval \<Rightarrow> error + pydict" where
  "Redditor_init r name fullname data =
     (if length (filter (\<lambda>v. v \<noteq> VNone) [name, fullname, data]) \<noteq> 1
      then Inl (TypeError Redditor_usage_msg)
      else if truthy data \<and> \<not> (is_dict data \<and> dict_has_key data ''name'')
      then Inl (AssertionError ''Please file a bug with PRAW.'')
      else
        (let self0 = Redditor_setattr r [] ''_listing_use_sort'' (VBool True);
             self1 = (if truthy name then Redditor_setattr r self0 ''name'' name
                      else if truthy fullname then Redditor_setattr r self0 ''_fullname'' fullname
                      else self0)
         in RedditBase_init (\<lambda>self k v. Inr (Redditor_setattr r self k v)) in_pydict
              (\<lambda>self b. Redditor_setattr r self ''_fetched'' (VBool b))
              ''name'' (Some ''_fullname'') self1 data False))"

text \<open>
  \<open>Redditor.from_data\<close> (lines 69 to 74): \<open>cls(reddit, data)\<close> passes \<open>data\<close> as the
  first positional parameter, \<open>name\<close>.
\<close>

definition Redditor_from_data :: "reddit \<Rightarrow> pyval \<Rightarrow> error + pyval" where
  "Redditor_from_data r data =
     (if data = VStr ''[deleted]'' then Inr VNone
      else (case Redditor_init r data VNone VNone of
              Inl e \<Rightarrow> Inl e
            | Inr self \<Rightarrow> Inr (VObj ''Redditor'' self)))"

section \<open>Comment (comment.py)\<close>

text \<open>
  A comment is an object of the store. Its record holds the public entries of
  \<open>__dict__\<close> as a dictionary and the private ones each as a field: \<open>_replies\<close> is a
  list of things or a CommentForest (the submission it was built for, and the list),
  \<open>_submission\<close> is absent (after \<open>del\<close>), None or a submission, \<open>_fetched\<close> a flag.
\<close>

datatype replies = RepliesList "addr list" | CommentForest addr "addr list"

record comment =
  c_dict :: pydict
  c_replies :: replies
  c_submission :: "addr option option"
  c_fetched :: bool

definition Comment_usage_msg :: string where
  "Comment_usage_msg =
     ''Exactly one of '' @ [CHR 0x27] @ ''id'' @ [CHR 0x27] @ '', '' @ [CHR 0x27] @ ''url''
       @ [CHR 0x27] @ '', or '' @ [CHR 0x27] @ ''_data'' @ [CHR 0x27] @ '' must be provided.''"


text \<open>
  \<open>Comment.__setattr__\<close> (lines 165 to 178). The payload keys are the attribute names
  the API sends; \<open>replies\<close> is stored under \<open>_replies\<close>.
\<close>

definition Comment_setattr :: "reddit \<Rightarrow> comment \<Rightarrow> string \<Rightarrow> pyval \<Rightarrow> error + comment" where
  "Comment_setattr r self attribute v =
     (if attribute = ''author'' then
        (case Redditor_from_data r v of
           Inl e \<Rightarrow> Inl e
         | Inr author \<Rightarrow> Inr (self\<lparr>c_dict := AList.update ''author'' author (c_dict self)\<rparr>))
      else if attribute = ''replies'' then
        Inr (self\<lparr>c_replies := RepliesList (if v = VStr [] then [] else objectify_children r v)\<rparr>)
      else if attribute = ''subreddit'' then
        Inr (self\<lparr>c_dict := AList.update ''subreddit'' (subreddit r v) (c_dict self)\<rparr>)
      else Inr (self\<lparr>c_dict := AList.update attribute v (c_dict self)\<rparr>))"

text \<open>
  \<open>Comment.__init__\<close> (lines 143 to 163). \<open>id\<close> and \<open>url\<close> are strings or None; the
  payload is a Python value, \<open>VNone\<close> for None.
\<close>

definition Comment_init ::
  "reddit \<Rightarrow> string option \<Rightarrow> string option \<Rightarrow> pyval \<Rightarrow> error + comment" where
  "Comment_init r ident url data =
     (if length (filter (\<lambda>b. b) [ident \<noteq> None, url \<noteq> None, data \<noteq> VNone]) \<noteq> 1
      then Inl (TypeError Comment_usage_msg)
      else
        (let self0 = \<lparr>c_dict = [], c_replies = RepliesList [], c_submission = Some None,
                      c_fetched = False\<rparr>;
             base = RedditBase_init (Comment_setattr r) (\<lambda>self k. in_pydict (c_dict self) k)
                      (\<lambda>self b. self\<lparr>c_fetched := b\<rparr>) ''id'' None
         in if ident \<noteq> None \<and> ident \<noteq> Some [] then
              (case Comment_setattr r self0 ''id'' (VStr (the ident)) of
                 Inl e \<Rightarrow> Inl e
               | Inr self1 \<Rightarrow> base self1 data False)
            else if url \<noteq> None \<and> url \<noteq> Some [] then
              (case id_from_url url_parts (the url) of
                 Inl e \<Rightarrow> Inl e
               | Inr i \<Rightarrow>
                   (case Comment_setattr r self0 ''id'' (VStr i) of
                      Inl e \<Rightarrow> Inl e
                    | Inr self1 \<Rightarrow> base self1 data False))
            else base self0 data True))"

section \<open>A concrete environment\<close>

text \<open>The kind table is the API's: \<open>t1\<close> comments, \<open>t2\<close> redditors, \<open>t3\<close> submissions.\<close>

definition test_reddit :: reddit where
  "test_reddit =
     \<lparr>kinds = (\<lambda>k. if k = ''comment'' then ''t1'' else if k = ''redditor'' then ''t2''
                    else if k = ''submission'' then ''t3'' else ''t5''),
      objectify_children = (\<lambda>v. []),
      subreddit = (\<lambda>v. VObj ''Subreddit'' [(''display_name'', v)]),
      user_subreddit = (\<lambda>v. VObj ''UserSubreddit'' [(''_data'', v)]),
      api_path_submission = (\<lambda>i. ''comments/'' @ i @ ''/''),
      api_path_info = ''api/info/'',
      request_json = (\<lambda>path params. VDict []),
      get_children = (\<lambda>path params. [])\<rparr>"

section \<open>The store\<close>

text \<open>
  Comments, MoreComments placeholders and submissions are objects of the store. The
  store also records the requests sent to the network, in order, and the next free
  address.

  Modelled from the spec: the Submission, MoreComments and CommentForest classes and
  the mixin that gives \<open>fullname\<close> (praw/models/reddit/submission.py, more.py,
  praw/models/comment_forest.py, praw/models/reddit/mixins) are not among the source
  files. The model keeps of them what comment.py uses. A submission is known by its
  \<open>id\<close> and holds the index \<open>_comments_by_id\<close>, from the fullname of a comment to the
  comment object (the spec's submission-scoped index). A MoreComments placeholder is
  its \<open>__dict__\<close>; its attribute \<open>submission\<close> is an ordinary entry. A CommentForest holds
  its submission and the list of things it iterates over. By the spec's glossary the
  fullname is the type prefix, an underscore and the id.
\<close>

record submission =
  s_id :: string
  s_comments_by_id :: "string \<rightharpoonup> addr"

datatype obj = OComment comment | OMore pydict | OSubmission submission

datatype request = Request string pydict

record world =
  heap :: "addr \<rightharpoonup> obj"
  next_addr :: addr
  requests :: "request list"

definition put :: "addr \<Rightarrow> obj \<Rightarrow> world \<Rightarrow> world" where
  "put a ob w = w\<lparr>heap := (heap w)(a \<mapsto> ob)\<rparr>"

definition alloc :: "obj \<Rightarrow> world \<Rightarrow> addr \<times> world" where
  "alloc ob w = (next_addr w, w\<lparr>heap := (heap w)(next_addr w \<mapsto> ob), next_addr := Suc (next_addr w)\<rparr>)"

text \<open>\<open>d[key]\<close> on a raw value, and \<open>xs[0]\<close>.\<close>

definition subscript :: "pyval \<Rightarrow> string \<Rightarrow> error + pyval" where
  "subscript d k =
     (case d of
        VDict entries \<Rightarrow> (case map_of entries k of Some v \<Rightarrow> Inr v | None \<Rightarrow> Inl (KeyError k))
      | _ \<Rightarrow> Inl (TypeError ''not subscriptable''))"

definition first_item :: "pyval \<Rightarrow> error + pyval" where
  "first_item xs =
     (case xs of
        VList ys \<Rightarrow> list_get ys 0
      | _ \<Rightarrow> Inl (TypeError ''not subscriptable''))"

text \<open>
  \<open>thing.id\<close>. Every comment holds its id (the base constructor raises ValueError
  otherwise), so reading it never fetches; an object without one gives AttributeError.
\<close>

definition thing_id :: "world \<Rightarrow> addr \<Rightarrow> error + pyval" where
  "thing_id w x =
     (case heap w x of
        Some (OComment c) \<Rightarrow>
          (case map_of (c_dict c) ''id'' of Some v \<Rightarrow> Inr v | None \<Rightarrow> Inl (AttributeError ''id''))
      | Some (OMore m) \<Rightarrow>
          (case map_of m ''id'' of Some v \<Rightarrow> Inr v | None \<Rightarrow> Inl (AttributeError ''id''))
      | Some (OSubmission s) \<Rightarrow> Inr (VStr (s_id s))
      | None \<Rightarrow> Inl (AttributeError ''id''))"

text \<open>The fullname \<open>f"{kind}_{id}"\<close>, for an id that is a string.\<close>

definition fullname_of :: "string \<Rightarrow> pyval \<Rightarrow> error + string" where
  "fullname_of kind i =
     (case i of
        VStr s \<Rightarrow> Inr (kind @ ''_'' @ s)
      | _ \<Rightarrow> Inl (TypeError ''id''))"

definition Comment_fullname :: "reddit \<Rightarrow> world \<Rightarrow> addr \<Rightarrow> error + string" where
  "Comment_fullname r w a =
     (case thing_id w a of
        Inl e \<Rightarrow> Inl e
      | Inr i \<Rightarrow> fullname_of (kinds r ''comment'') i)"

definition Submission_fullname :: "reddit \<Rightarrow> submission \<Rightarrow> string" where
  "Submission_fullname r s = kinds r ''submission'' @ ''_'' @ s_id s"

section \<open>Fetching a comment\<close>

text \<open>
  \<open>Comment._fetch\<close> (lines 185 to 199), with \<open>_fetch_info\<close>: one request for the
  comment's fullname, a ClientException when no child comes back, otherwise a
  comment built from the first child's payload, whose whole \<open>__dict__\<close> is written
  over this comment's; the base class then marks the comment as fetched.
  \<open>merge_comment\<close> is \<open>self.__dict__.update(other.__dict__)\<close>: every entry the other
  comment has replaces this comment's, and an entry the other lacks (its
  \<open>_submission\<close>, after \<open>del\<close>) leaves this comment's in place.
\<close>

definition merge_comment :: "comment \<Rightarrow> comment \<Rightarrow> comment" where
  "merge_comment self other =
     \<lparr>c_dict = dict_update (c_dict self) (c_dict other), c_replies = c_replies other,
      c_submission = (case c_submission other of None \<Rightarrow> c_submission self | Some v \<Rightarrow> Some v),
      c_fetched = c_fetched other\<rparr>"

definition Comment_fetch :: "reddit \<Rightarrow> addr \<Rightarrow> world \<Rightarrow> error + world" where
  "Comment_fetch r a w =
     (case heap w a of
        Some (OComment self) \<Rightarrow>
          (case Comment_fullname r w a of
             Inl e \<Rightarrow> Inl e
           | Inr fn \<Rightarrow>
               (let params = [(''id'', VStr fn)];
                    w1 = w\<lparr>requests := requests w @ [Request (api_path_info r) params]\<rparr>
                in case subscript (request_json r (api_path_info r) params) ''data'' of
                     Inl e \<Rightarrow> Inl e
                   | Inr data \<Rightarrow>
                       (case subscript data ''children'' of
                          Inl e \<Rightarrow> Inl e
                        | Inr children \<Rightarrow>
                            if \<not> truthy children
                            then Inl (ClientException (''No data returned for comment '' @ fn))
                            else
                              (case first_item children of
                                 Inl e \<Rightarrow> Inl e
                               | Inr child \<Rightarrow>
                                   (case subscript child ''data'' of
                                      Inl e \<Rightarrow> Inl e
                                    | Inr comment_data \<Rightarrow>
                                        (case Comment_init r None None comment_data of
                                           Inl e \<Rightarrow> Inl e
                                         | Inr other \<Rightarrow>
                                             Inr (put a (OComment ((merge_comment self other)
                                                                    \<lparr>c_fetched := True\<rparr>)) w1)))))))
      | _ \<Rightarrow> Inl (AttributeError ''_fetch''))"

text \<open>
  Modelled from the spec: \<open>RedditBase.__getattr__\<close> (praw/models/reddit/base.py) is not
  among the source files. By the spec, reading an attribute that is cached returns it;
  reading a missing one on an entity that is not fetched fetches once and then
  resolves the read; a name that is still missing, or missing on a fetched entity, is
  an AttributeError. Private names (a leading underscore) never fetch.
\<close>

definition Comment_getattr :: "reddit \<Rightarrow> addr \<Rightarrow> string \<Rightarrow> world \<Rightarrow> error + (pyval \<times> world)" where
  "Comment_getattr r a name w =
     (case heap w a of
        Some (OComment self) \<Rightarrow>
          (case map_of (c_dict self) name of
             Some v \<Rightarrow> Inr (v, w)
           | None \<Rightarrow>
               if take 1 name \<noteq> ''_'' \<and> \<not> c_fetched self then
                 (case Comment_fetch r a w of
                    Inl e \<Rightarrow> Inl e
                  | Inr w1 \<Rightarrow>
                      (case heap w1 a of
                         Some (OComment self1) \<Rightarrow>
                           (case map_of (c_dict self1) name of
                              Some v \<Rightarrow> Inr (v, w1)
                            | None \<Rightarrow> Inl (AttributeError name))
                       | _ \<Rightarrow> Inl (AttributeError name)))
               else Inl (AttributeError name))
      | _ \<Rightarrow> Inl (AttributeError name))"

section \<open>The submission of a comment\<close>

text \<open>\<open>Comment._extract_submission_id\<close> (lines 180 to 183).\<close>

definition Comment_extract_submission_id :: "reddit \<Rightarrow> addr \<Rightarrow> world \<Rightarrow> error + (string \<times> world)" where
  "Comment_extract_submission_id r a w =
     (case heap w a of
        Some (OComment self) \<Rightarrow>
          if in_pydict (c_dict self) ''context'' then
            (case map_of (c_dict self) ''context'' of
               Some (VStr ctx) \<Rightarrow>
                 (case list_get (rsplit_max CHR ''/'' 4 ctx) 1 of
                    Inl e \<Rightarrow> Inl e
                  | Inr sid \<Rightarrow> Inr (sid, w))
             | _ \<Rightarrow> Inl (AttributeError ''rsplit''))
          else
            (case Comment_getattr r a ''link_id'' w of
               Inl e \<Rightarrow> Inl e
             | Inr (v, w1) \<Rightarrow>
                 (case v of
                    VStr link_id \<Rightarrow>
                      (case list_get (split_max CHR ''_'' 1 link_id) 1 of
                         Inl e \<Rightarrow> Inl e
                       | Inr sid \<Rightarrow> Inr (sid, w1))
                  | _ \<Rightarrow> Inl (AttributeError ''split'')))
      | _ \<Rightarrow> Inl (AttributeError ''_extract_submission_id''))"

text \<open>
  Modelled from the spec: \<open>reddit.submission(id)\<close> builds a Submission, a class that is
  not among the source files: a new submission with that id and an empty index. By
  the construction invariant of the spec an id that fails validation is refused; the
  base constructor refuses the empty one with ValueError.
\<close>

definition reddit_submission :: "string \<Rightarrow> world \<Rightarrow> error + (addr \<times> world)" where
  "reddit_submission sid w =
     (if sid = [] then Inl (ValueError ''An invalid value was specified for id.'')
      else Inr (alloc (OSubmission \<lparr>s_id = sid, s_comments_by_id = Map.empty\<rparr>) w))"

text \<open>The property \<open>Comment.submission\<close>, read (lines 128 to 133).\<close>

definition Comment_submission :: "reddit \<Rightarrow> addr \<Rightarrow> world \<Rightarrow> error + (addr \<times> world)" where
  "Comment_submission r a w =
     (case heap w a of
        Some (OComment self) \<Rightarrow>
          (case c_submission self of
             None \<Rightarrow> Inl (AttributeError ''_submission'')
           | Some (Some s) \<Rightarrow> Inr (s, w)
           | Some None \<Rightarrow>
               (case Comment_extract_submission_id r a w of
                  Inl e \<Rightarrow> Inl e
                | Inr (sid, w1) \<Rightarrow>
                    (case reddit_submission sid w1 of
                       Inl e \<Rightarrow> Inl e
                     | Inr (s, w2) \<Rightarrow>
                         (case heap w2 a of
                            Some (OComment self2) \<Rightarrow>
                              Inr (s, put a (OComment (self2\<lparr>c_submission := Some (Some s)\<rparr>)) w2)
                          | _ \<Rightarrow> Inl (AttributeError ''_submission'')))))
      | _ \<Rightarrow> Inl (AttributeError ''submission''))"

text \<open>
  The property \<open>Comment.replies\<close> (lines 101 to 126): a plain list is wrapped, once,
  in a CommentForest of the comment's submission. Iterating the forest gives the
  things of the list, in order.
\<close>

fun replies_list :: "replies \<Rightarrow> addr list" where
  "replies_list (RepliesList xs) = xs"
| "replies_list (CommentForest s xs) = xs"

definition Comment_replies :: "reddit \<Rightarrow> addr \<Rightarrow> world \<Rightarrow> error + (addr list \<times> world)" where
  "Comment_replies r a w =
     (case heap w a of
        Some (OComment self) \<Rightarrow>
          (case c_replies self of
             RepliesList xs \<Rightarrow>
               (case Comment_submission r a w of
                  Inl e \<Rightarrow> Inl e
                | Inr (s, w1) \<Rightarrow>
                    (case heap w1 a of
                       Some (OComment self1) \<Rightarrow>
                         Inr (xs, put a (OComment (self1\<lparr>c_replies := CommentForest s xs\<rparr>)) w1)
                     | _ \<Rightarrow> Inl (AttributeError ''_replies'')))
           | CommentForest s xs \<Rightarrow> Inr (xs, w))
      | _ \<Rightarrow> Inl (AttributeError ''replies''))"

text \<open>
  The assignment \<open>thing.submission = submission\<close>. On a comment it runs the property's
  setter (lines 135 to 141): the comment is entered in the submission's index under
  its fullname, its \<open>_submission\<close> is set, and the assignment is repeated on each of
  its replies. On a MoreComments placeholder it sets the attribute. The first
  argument bounds the depth of the nested setter calls, as the interpreter's recursion
  limit does; beyond it the call raises RecursionError.
\<close>

fun assign_submission :: "nat \<Rightarrow> reddit \<Rightarrow> addr \<Rightarrow> addr \<Rightarrow> world \<Rightarrow> error + world"
  and assign_submission_all :: "nat \<Rightarrow> reddit \<Rightarrow> addr \<Rightarrow> addr list \<Rightarrow> world \<Rightarrow> error + world"
where
  "assign_submission depth r s x w =
     (case heap w x of
        Some (OMore m) \<Rightarrow> Inr (put x (OMore (AList.update ''submission'' (VRef s) m)) w)
      | Some (OComment self) \<Rightarrow>
          (case depth of
             0 \<Rightarrow> Inl RecursionError
           | Suc d \<Rightarrow>
               (case Comment_fullname r w x of
                  Inl e \<Rightarrow> Inl e
                | Inr fn \<Rightarrow>
                    (case heap w s of
                       Some (OSubmission sub) \<Rightarrow>
                         (let w1 = put s (OSubmission
                                     (sub\<lparr>s_comments_by_id := (s_comments_by_id sub)(fn \<mapsto> x)\<rparr>)) w;
                              w2 = put x (OComment (self\<lparr>c_submission := Some (Some s)\<rparr>)) w1
                          in case Comment_replies r x w2 of
                               Inl e \<Rightarrow> Inl e
                             | Inr (replies, w3) \<Rightarrow> assign_submission_all d r s replies w3)
                     | _ \<Rightarrow> Inl (AttributeError ''_comments_by_id''))))
      | _ \<Rightarrow> Inl (AttributeError ''submission''))"
| "assign_submission_all depth r s [] w = Inr w"
| "assign_submission_all depth r s (x # xs) w =
     (case assign_submission depth r s x w of
        Inl e \<Rightarrow> Inl e
      | Inr w1 \<Rightarrow> assign_submission_all depth r s xs w1)"

section \<open>Comment trees in the store\<close>

text \<open>
  The things a response delivers form trees: a comment with its id and its replies, or
  a MoreComments placeholder. A tree names the addresses of its objects;
  \<open>represents\<close> says that the store holds the tree at these addresses: each comment
  node is a comment with that id whose \<open>_replies\<close> lists the roots of its subtrees.
\<close>

datatype thing_tree = CommentNode addr string "thing_tree list" | MoreNode addr

fun root :: "thing_tree \<Rightarrow> addr" where
  "root (CommentNode x i ts) = x"
| "root (MoreNode x) = x"

fun addrs :: "thing_tree \<Rightarrow> addr list" where
  "addrs (CommentNode x i ts) = x # concat (map addrs ts)"
| "addrs (MoreNode x) = [x]"

fun children :: "thing_tree \<Rightarrow> thing_tree list" where
  "children (CommentNode x i ts) = ts"
| "children (MoreNode x) = []"

text \<open>The number of nested setter calls an assignment at the root of the tree makes.\<close>

fun tree_depth :: "thing_tree \<Rightarrow> nat" where
  "tree_depth (CommentNode x i ts) = Suc (fold max (map tree_depth ts) 0)"
| "tree_depth (MoreNode x) = 0"

fun represents :: "(addr \<rightharpoonup> obj) \<Rightarrow> thing_tree \<Rightarrow> bool" where
  "represents h (CommentNode x i ts) =
     (case h x of
        Some (OComment c) \<Rightarrow>
          map_of (c_dict c) ''id'' = Some (VStr i) \<and> replies_list (c_replies c) = map root ts
          \<and> list_all (represents h) ts
      | _ \<Rightarrow> False)"
| "represents h (MoreNode x) = (case h x of Some (OMore m) \<Rightarrow> True | _ \<Rightarrow> False)"

text \<open>The comments of a tree with their fullnames, in the order the setter meets them.\<close>

fun registrations :: "string \<Rightarrow> thing_tree \<Rightarrow> (string \<times> addr) list" where
  "registrations kind (CommentNode x i ts) =
     (kind @ ''_'' @ i, x) # concat (map (registrations kind) ts)"
| "registrations kind (MoreNode x) = []"

text \<open>
  What the assignment of submission \<open>s\<close> makes of one object of a tree, and of the
  submission itself; \<open>reparented\<close> is the store after the assignment has run over the
  trees \<open>ts\<close>: each of their objects reparented, every comment registered (a later
  registration of the same fullname replaces an earlier one), all else untouched.
\<close>

fun reparent :: "addr \<Rightarrow> obj \<Rightarrow> obj" where
  "reparent s (OComment c) =
     OComment (c\<lparr>c_submission := Some (Some s),
                 c_replies := (case c_replies c of
                                 RepliesList xs \<Rightarrow> CommentForest s xs
                               | CommentForest f xs \<Rightarrow> CommentForest f xs)\<rparr>)"
| "reparent s (OMore m) = OMore (AList.update ''submission'' (VRef s) m)"
| "reparent s (OSubmission sub) = OSubmission sub"

fun register :: "(string \<times> addr) list \<Rightarrow> obj \<Rightarrow> obj" where
  "register regs (OSubmission sub) =
     OSubmission (sub\<lparr>s_comments_by_id := s_comments_by_id sub ++ map_of (rev regs)\<rparr>)"
| "register regs ob = ob"

definition reparented :: "reddit \<Rightarrow> addr \<Rightarrow> thing_tree list \<Rightarrow> world \<Rightarrow> world" where
  "reparented r s ts w =
     w\<lparr>heap := (\<lambda>y. if y \<in> set (concat (map addrs ts)) then map_option (reparent s) (heap w y)
                     else if y = s
                     then map_option (register (concat (map (registrations (kinds r ''comment'')) ts)))
                            (heap w y)
                     else heap w y)\<rparr>"

section \<open>Comment.parent (lines 201 to 262)\<close>

text \<open>
  Every read of \<open>self.parent_id\<close> and of \<open>self.submission\<close> is made where the source
  makes it, each on the store the previous read left.
\<close>

definition Comment_parent :: "reddit \<Rightarrow> addr \<Rightarrow> world \<Rightarrow> error + (addr \<times> world)" where
  "Comment_parent r a w =
     (case Comment_getattr r a ''parent_id'' w of
        Inl e \<Rightarrow> Inl e
      | Inr (parent_id, w1) \<Rightarrow>
     (case Comment_submission r a w1 of
        Inl e \<Rightarrow> Inl e
      | Inr (s, w2) \<Rightarrow>
     (case heap w2 s of
        Some (OSubmission sub) \<Rightarrow>
          if parent_id = VStr (Submission_fullname r sub) then Comment_submission r a w2
          else
            (case Comment_getattr r a ''parent_id'' w2 of
               Inl e \<Rightarrow> Inl e
             | Inr (parent_id1, w3) \<Rightarrow>
            (case Comment_submission r a w3 of
               Inl e \<Rightarrow> Inl e
             | Inr (s1, w4) \<Rightarrow>
            (case heap w4 s1 of
               Some (OSubmission sub1) \<Rightarrow>
                 (case parent_id1 of
                    VStr pid \<Rightarrow>
                      (case s_comments_by_id sub1 pid of
                         Some p \<Rightarrow> Inr (p, w4)
                       | None \<Rightarrow>
                           (case list_get (split_max CHR ''_'' 1 pid) 1 of
                              Inl e \<Rightarrow> Inl e
                            | Inr parent_ident \<Rightarrow>
                                (case Comment_init r (Some parent_ident) None VNone of
                                   Inl e \<Rightarrow> Inl e
                                 | Inr parent \<Rightarrow>
                                     (case alloc (OComment parent) w4 of
                                        (p, w5) \<Rightarrow>
                                          (case Comment_submission r a w5 of
                                             Inl e \<Rightarrow> Inl e
                                           | Inr (s2, w6) \<Rightarrow>
                                               Inr (p, put p (OComment (parent\<lparr>c_submission := Some (Some s2)\<rparr>)) w6))))))
                  | _ \<Rightarrow> Inl (TypeError ''unhashable or not a string''))
             | _ \<Rightarrow> Inl (AttributeError ''_comments_by_id''))))
      | _ \<Rightarrow> Inl (AttributeError ''fullname''))))"

section \<open>Comment.refresh (lines 264 to 311)\<close>












section \<open>Listings (listing.py)\<close>








section \<open>The error classifier (Objector.parse_error)\<close>

text \<open>
  Modelled from the spec: \<open>Objector.parse_error\<close> (praw/objector.py) and the classes
  \<open>RedditErrorItem\<close> and \<open>RedditAPIException\<close> (praw/exceptions.py) are not among the
  source files; only their tests are. By the spec, the classifier looks at
  \<open>raw["json"]["errors"]\<close>, a sequence of triples (error type, message, field or null).
  An array that is present but empty raises the client-side exception "no error
  detected where one was expected"; a non-empty array gives one RedditErrorItem per
  triple, all wrapped in one RedditAPIException, which is returned; every other shape
  returns null and never raises.
\<close>

datatype RedditErrorItem =
  RedditErrorItem (item_error_type: pyval) (item_message: pyval) (item_field: pyval)

datatype RedditAPIException = RedditAPIException (exception_items: "RedditErrorItem list")

fun to_error_item :: "pyval \<Rightarrow> RedditErrorItem option" where
  "to_error_item (VList [t, m, f]) = Some (RedditErrorItem t m f)"
| "to_error_item v = None"

definition parse_error :: "pyval \<Rightarrow> error + RedditAPIException option" where
  "parse_error raw =
     (case raw of
        VDict d \<Rightarrow>
          (case map_of d ''json'' of
             Some (VDict j) \<Rightarrow>
               (case map_of j ''errors'' of
                  Some (VList errors) \<Rightarrow>
                    if errors = []
                    then Inl (ClientException ''no error detected where one was expected'')
                    else if list_all (\<lambda>e. to_error_item e \<noteq> None) errors
                    then Inr (Some (RedditAPIException (map (\<lambda>e. the (to_error_item e)) errors)))
                    else Inr None
                | _ \<Rightarrow> Inr None)
           | _ \<Rightarrow> Inr None)
      | _ \<Rightarrow> Inr None)"

text \<open>A triple of the errors array as the raw value it is sent as, and as the item built from it.\<close>

fun triple_raw :: "pyval \<times> pyval \<times> pyval \<Rightarrow> pyval" where
  "triple_raw (t, m, f) = VList [t, m, f]"

fun triple_item :: "pyval \<times> pyval \<times> pyval \<Rightarrow> RedditErrorItem" where
  "triple_item (t, m, f) = RedditErrorItem t m f"

section \<open>Concrete stores\<close>

text \<open>
  A comment built from its id alone, not yet fetched and with no submission, alone in
  the store; and an environment whose network answers the info request with the
  comment's payload.
\<close>

definition shallow_world :: world where
  "shallow_world =
     \<lparr>heap = Map.empty(0 \<mapsto> OComment \<lparr>c_dict = [(''id'', VStr ''c1'')], c_replies = RepliesList [],
                                        c_submission = Some None, c_fetched = False\<rparr>),
      next_addr = 1,
      requests = []\<rparr>"

definition info_reddit :: reddit where
  "info_reddit =
     test_reddit\<lparr>request_json := (\<lambda>path params.
        VDict [(''data'', VDict [(''children'',
          VList [VDict [(''kind'', VStr ''t1''),
                        (''data'', VDict [(''id'', VStr ''c1''), (''parent_id'', VStr ''t1_p''),
                                          (''link_id'', VStr ''t3_s'')])]])])])\<rparr>"

text \<open>
  The submission \<open>s\<close> at address 0, whose index knows the comment \<open>p\<close>; the top-level
  comment \<open>p\<close> at address 2; its reply \<open>c1\<close> at address 1; and a comment \<open>c3\<close> at
  address 3 whose parent \<open>q\<close> is not in the index. All three comments are fetched and
  belong to \<open>s\<close>.
\<close>

definition thread_world :: world where
  "thread_world =
     \<lparr>heap = Map.empty
        (0 \<mapsto> OSubmission \<lparr>s_id = ''s'', s_comments_by_id = Map.empty(''t1_p'' \<mapsto> 2)\<rparr>,
         1 \<mapsto> OComment \<lparr>c_dict = [(''id'', VStr ''c1''), (''parent_id'', VStr ''t1_p'')],
                          c_replies = RepliesList [], c_submission = Some (Some 0), c_fetched = True\<rparr>,
         2 \<mapsto> OComment \<lparr>c_dict = [(''id'', VStr ''p''), (''parent_id'', VStr ''t3_s'')],
                          c_replies = RepliesList [1], c_submission = Some (Some 0), c_fetched = True\<rparr>,
         3 \<mapsto> OComment \<lparr>c_dict = [(''id'', VStr ''c3''), (''parent_id'', VStr ''t1_q'')],
                          c_replies = RepliesList [], c_submission = Some (Some 0), c_fetched = True\<rparr>),
      next_addr = 4,
      requests = []\<rparr>"

text \<open>
  A fetched comment \<open>c1\<close> alone in the store, with its \<open>parent_id\<close> and \<open>link_id\<close> loaded
  and no submission set (a fetch leaves \<open>_submission\<close> None).
\<close>

definition fetched_world :: world where
  "fetched_world =
     \<lparr>heap = Map.empty
        (0 \<mapsto> OComment \<lparr>c_dict = [(''id'', VStr ''c1''), (''parent_id'', VStr ''t1_p''),
                                   (''link_id'', VStr ''t3_s'')],
                          c_replies = RepliesList [], c_submission = Some None, c_fetched = True\<rparr>),
      next_addr = 1,
      requests = []\<rparr>"

text \<open>
  A response not yet attached to its submission: the submission \<open>s\<close> at address 0 with an
  empty index; the comment \<open>p\<close> at address 1 with two replies, the comment \<open>c1\<close> at
  address 2 and a MoreComments placeholder at address 3.
\<close>

definition reply_world :: world where
  "reply_world =
     \<lparr>heap = Map.empty
        (0 \<mapsto> OSubmission \<lparr>s_id = ''s'', s_comments_by_id = Map.empty\<rparr>,
         1 \<mapsto> OComment \<lparr>c_dict = [(''id'', VStr ''p''), (''parent_id'', VStr ''t3_s'')],
                          c_replies = RepliesList [2, 3], c_submission = Some None, c_fetched = True\<rparr>,
         2 \<mapsto> OComment \<lparr>c_dict = [(''id'', VStr ''c1''), (''parent_id'', VStr ''t1_p'')],
                          c_replies = RepliesList [], c_submission = Some None, c_fetched = True\<rparr>,
         3 \<mapsto> OMore [(''submission'', VNone), (''id'', VStr ''_''), (''parent_id'', VStr ''t1_p'')]),
      next_addr = 4,
      requests = []\<rparr>"

definition reply_tree :: thing_tree where
  "reply_tree = CommentNode 1 ''p'' [CommentNode 2 ''c1'' [], MoreNode 3]"





section \<open>Properties\<close>

subsection \<open>Construction\<close>

lemma usage_msgs_differ: "Redditor_usage_msg \<noteq> Comment_usage_msg"
  by (simp add: Redditor_usage_msg_def Comment_usage_msg_def)

lemma set_all_error:
  "set_all f s kvs = Inl e \<Longrightarrow> \<exists>s' k v. f s' k v = Inl e"
proof (induction kvs arbitrary: s)
  case Nil
  then show ?case by simp
next
  case (Cons kv kvs)
  obtain k v where kv: "kv = (k, v)" by (cases kv)
  show ?case
  proof (cases "f s k v")
    case (Inl e')
    with Cons.prems kv have "f s k v = Inl e" by simp
    then show ?thesis by blast
  next
    case (Inr s1)
    with Cons.prems kv have "set_all f s1 kvs = Inl e" by simp
    then show ?thesis by (rule Cons.IH)
  qed
qed

lemma set_all_total:
  "(\<And>s k v. \<exists>s'. f s k v = Inr s') \<Longrightarrow> \<exists>s'. set_all f s kvs = Inr s'"
proof (induction kvs arbitrary: s)
  case Nil
  then show ?case by simp
next
  case (Cons kv kvs)
  obtain k v where kv: "kv = (k, v)" by (cases kv)
  from Cons.prems obtain s1 where "f s k v = Inr s1" by blast
  with Cons kv show ?case by simp
qed

lemma Redditor_init_error:
  "Redditor_init r n f d = Inl e \<Longrightarrow>
     e = TypeError Redditor_usage_msg \<or> e = AssertionError ''Please file a bug with PRAW.''
     \<or> (\<exists>m. e = ValueError m)"
  unfolding Redditor_init_def RedditBase_init_def PRAWBase_init_def Let_def
  by (auto split: if_splits sum.splits pyval.splits dest!: set_all_error)

lemma Redditor_from_data_error:
  "Redditor_from_data r d = Inl e \<Longrightarrow>
     e = TypeError Redditor_usage_msg \<or> e = AssertionError ''Please file a bug with PRAW.''
     \<or> (\<exists>m. e = ValueError m)"
  unfolding Redditor_from_data_def
  by (auto split: if_splits sum.splits dest: Redditor_init_error)

lemma Comment_setattr_error:
  "Comment_setattr r s k v = Inl e \<Longrightarrow> e \<noteq> TypeError Comment_usage_msg"
  unfolding Comment_setattr_def using usage_msgs_differ
  by (auto split: if_splits sum.splits dest!: Redditor_from_data_error)

lemma id_from_url_error:
  "id_from_url url_parts u = Inl e \<Longrightarrow> e = InvalidURL u"
  unfolding id_from_url_def url_parts_def
  by (auto split: if_splits sum.splits option.splits)

lemma Comment_base_error:
  "RedditBase_init (Comment_setattr r) P Q sf ex s d b = Inl e \<Longrightarrow> e \<noteq> TypeError Comment_usage_msg"
  unfolding RedditBase_init_def PRAWBase_init_def Let_def
  by (auto split: if_splits sum.splits pyval.splits option.splits dest!: set_all_error Comment_setattr_error)

text \<open>
  C1. Constructing a Comment or a Redditor raises its usage error, the TypeError with
  the class's "Exactly one of ..." message, exactly when the number of identity inputs
  that are not None is 0, 2 or 3; with exactly one input this error is not raised.
\<close>

theorem construct_usage_error:
  "(Comment_init r ident url data = Inl (TypeError Comment_usage_msg)
      \<longleftrightarrow> of_bool (ident \<noteq> None) + of_bool (url \<noteq> None) + of_bool (data \<noteq> VNone) \<in> {0, 2, 3 :: nat})
   \<and> (Redditor_init r name fullname rdata = Inl (TypeError Redditor_usage_msg)
      \<longleftrightarrow> of_bool (name \<noteq> VNone) + of_bool (fullname \<noteq> VNone) + of_bool (rdata \<noteq> VNone) \<in> {0, 2, 3 :: nat})"
proof
  show "Comment_init r ident url data = Inl (TypeError Comment_usage_msg)
      \<longleftrightarrow> of_bool (ident \<noteq> None) + of_bool (url \<noteq> None) + of_bool (data \<noteq> VNone) \<in> {0, 2, 3 :: nat}"
  proof (cases "length (filter (\<lambda>b. b) [ident \<noteq> None, url \<noteq> None, data \<noteq> VNone]) \<noteq> 1")
    case True
    then show ?thesis by (auto simp: Comment_init_def split: if_splits)
  next
    case False
    then have cnt: "of_bool (ident \<noteq> None) + of_bool (url \<noteq> None) + of_bool (data \<noteq> VNone) \<notin> {0, 2, 3 :: nat}"
      by (auto split: if_splits)
    have "Comment_init r ident url data \<noteq> Inl (TypeError Comment_usage_msg)"
      using False unfolding Comment_init_def Let_def
      by (auto split: sum.splits dest: Comment_base_error Comment_setattr_error id_from_url_error)
    with cnt show ?thesis by simp
  qed
next
  show "Redditor_init r name fullname rdata = Inl (TypeError Redditor_usage_msg)
      \<longleftrightarrow> of_bool (name \<noteq> VNone) + of_bool (fullname \<noteq> VNone) + of_bool (rdata \<noteq> VNone) \<in> {0, 2, 3 :: nat}"
  proof (cases "length (filter (\<lambda>v. v \<noteq> VNone) [name, fullname, rdata]) \<noteq> 1")
    case True
    then show ?thesis by (auto simp: Redditor_init_def split: if_splits)
  next
    case False
    then have cnt: "of_bool (name \<noteq> VNone) + of_bool (fullname \<noteq> VNone) + of_bool (rdata \<noteq> VNone) \<notin> {0, 2, 3 :: nat}"
      by (auto split: if_splits)
    have "Redditor_init r name fullname rdata \<noteq> Inl (TypeError Redditor_usage_msg)"
      using False unfolding Redditor_init_def RedditBase_init_def PRAWBase_init_def Let_def
      by (auto split: if_splits sum.splits pyval.splits dest!: set_all_error)
    with cnt show ?thesis by simp
  qed
qed

subsection \<open>Identifier extraction from a permalink\<close>

lemma list_index_None: "list_index xs x = None \<longleftrightarrow> x \<notin> set xs"
  by (induction xs) (auto split: option.splits)

lemma list_index_Some:
  "list_index xs x = Some i \<longleftrightarrow> i < length xs \<and> xs ! i = x \<and> (\<forall>j<i. xs ! j \<noteq> x)"
proof (induction xs arbitrary: i)
  case Nil
  then show ?case by simp
next
  case (Cons y ys)
  show ?case
  proof (cases "y = x")
    case True
    then show ?thesis by (cases i) auto
  next
    case False
    show ?thesis
    proof (cases i)
      case 0
      with False show ?thesis by (auto split: option.splits)
    next
      case (Suc k)
      have "(\<forall>j<Suc k. (y # ys) ! j \<noteq> x) \<longleftrightarrow> (\<forall>j<k. ys ! j \<noteq> x)"
        using False by (auto simp: less_Suc_eq_0_disj)
      with False Suc Cons.IH [of k] show ?thesis
        by (auto split: option.splits)
    qed
  qed
qed

text \<open>
  C2. The four permalinks of the test (with and without a trailing slash, with and
  without a subreddit segment) give "cklhv0f". For every function that splits URLs and
  every URL whose parts lack a "comments" segment, or whose first "comments" segment
  is not at offset len(parts) - 4, the result is the InvalidURL error, which is of
  ClientException kind; at that offset the result is the last part. An error of the
  splitting function is passed on; for \<open>url_parts\<close> it is InvalidURL, raised when the URL
  has no network location.
\<close>

theorem id_from_url_permalink:
  "id_from_url url_parts ''http://reddit.com/comments/2gmzqe/_/cklhv0f/'' = Inr ''cklhv0f''
   \<and> id_from_url url_parts ''https://reddit.com/comments/2gmzqe/_/cklhv0f'' = Inr ''cklhv0f''
   \<and> id_from_url url_parts ''http://www.reddit.com/r/redditdev/comments/2gmzqe/_/cklhv0f/'' = Inr ''cklhv0f''
   \<and> id_from_url url_parts ''https://www.reddit.com/r/redditdev/comments/2gmzqe/_/cklhv0f'' = Inr ''cklhv0f''
   \<and> (\<forall>url parts. f url = Inr parts \<and> ''comments'' \<notin> set parts
          \<longrightarrow> id_from_url f url = Inl (InvalidURL url))
   \<and> (\<forall>url parts i. f url = Inr parts \<and> i < length parts \<and> parts ! i = ''comments''
            \<and> (\<forall>j<i. parts ! j \<noteq> ''comments'') \<and> int i \<noteq> int (length parts) - 4
          \<longrightarrow> id_from_url f url = Inl (InvalidURL url))
   \<and> (\<forall>url parts i. f url = Inr parts \<and> i < length parts \<and> parts ! i = ''comments''
            \<and> (\<forall>j<i. parts ! j \<noteq> ''comments'') \<and> int i = int (length parts) - 4
          \<longrightarrow> id_from_url f url = Inr (last parts))
   \<and> (\<forall>url e. f url = Inl e \<longrightarrow> id_from_url f url = Inl e)
   \<and> (\<forall>url. urlparse_netloc url = [] \<longrightarrow> id_from_url url_parts url = Inl (InvalidURL url))
   \<and> (\<forall>url. is_ClientException (InvalidURL url))"
proof (intro conjI allI impI)
  show "id_from_url url_parts ''http://reddit.com/comments/2gmzqe/_/cklhv0f/'' = Inr ''cklhv0f''"
    by code_simp
  show "id_from_url url_parts ''https://reddit.com/comments/2gmzqe/_/cklhv0f'' = Inr ''cklhv0f''"
    by code_simp
  show "id_from_url url_parts ''http://www.reddit.com/r/redditdev/comments/2gmzqe/_/cklhv0f/'' = Inr ''cklhv0f''"
    by code_simp
  show "id_from_url url_parts ''https://www.reddit.com/r/redditdev/comments/2gmzqe/_/cklhv0f'' = Inr ''cklhv0f''"
    by code_simp
next
  fix url parts
  assume "f url = Inr parts \<and> ''comments'' \<notin> set parts"
  then show "id_from_url f url = Inl (InvalidURL url)"
    by (simp add: id_from_url_def list_index_None [symmetric])
next
  fix url parts i
  assume a: "f url = Inr parts \<and> i < length parts \<and> parts ! i = ''comments''
            \<and> (\<forall>j<i. parts ! j \<noteq> ''comments'') \<and> int i \<noteq> int (length parts) - 4"
  then have "list_index parts ''comments'' = Some i"
    by (simp add: list_index_Some)
  with a show "id_from_url f url = Inl (InvalidURL url)"
    by (simp add: id_from_url_def)
next
  fix url parts i
  assume a: "f url = Inr parts \<and> i < length parts \<and> parts ! i = ''comments''
            \<and> (\<forall>j<i. parts ! j \<noteq> ''comments'') \<and> int i = int (length parts) - 4"
  then have "list_index parts ''comments'' = Some i"
    by (simp add: list_index_Some)
  with a show "id_from_url f url = Inr (last parts)"
    by (simp add: id_from_url_def)
next
  fix url e
  assume "f url = Inl e"
  then show "id_from_url f url = Inl e" by (simp add: id_from_url_def)
next
  fix url
  assume "urlparse_netloc url = []"
  then show "id_from_url url_parts url = Inl (InvalidURL url)"
    by (simp add: id_from_url_def url_parts_def)
next
  fix url
  show "is_ClientException (InvalidURL url)" by simp
qed

theorem id_from_url_permalink_witness:
  "url_parts ''http://my.it/2gmzqe'' = Inr ['''', ''2gmzqe'']
   \<and> id_from_url url_parts ''http://my.it/2gmzqe'' = Inl (InvalidURL ''http://my.it/2gmzqe'')
   \<and> url_parts ''http://reddit.com/comments/2gmzqe'' = Inr ['''', ''comments'', ''2gmzqe'']
   \<and> id_from_url url_parts ''http://reddit.com/comments/2gmzqe''
       = Inl (InvalidURL ''http://reddit.com/comments/2gmzqe'')
   \<and> url_parts ''http://reddit.com/comments/2gmzqe/_/cklhv0f''
       = Inr ['''', ''comments'', ''2gmzqe'', ''_'', ''cklhv0f'']
   \<and> id_from_url url_parts ''http://reddit.com/comments/2gmzqe/_/cklhv0f'' = Inr ''cklhv0f''"
proof -
  have p1: "url_parts ''http://my.it/2gmzqe'' = Inr ['''', ''2gmzqe'']" by code_simp
  have p2: "url_parts ''http://reddit.com/comments/2gmzqe'' = Inr ['''', ''comments'', ''2gmzqe'']"
    by code_simp
  have p3: "url_parts ''http://reddit.com/comments/2gmzqe/_/cklhv0f''
       = Inr ['''', ''comments'', ''2gmzqe'', ''_'', ''cklhv0f'']" by code_simp
  note t = id_from_url_permalink [of url_parts]
  from t have a: "\<forall>url parts. url_parts url = Inr parts \<and> ''comments'' \<notin> set parts
          \<longrightarrow> id_from_url url_parts url = Inl (InvalidURL url)" by blast
  from t have b: "\<forall>url parts i. url_parts url = Inr parts \<and> i < length parts \<and> parts ! i = ''comments''
            \<and> (\<forall>j<i. parts ! j \<noteq> ''comments'') \<and> int i \<noteq> int (length parts) - 4
          \<longrightarrow> id_from_url url_parts url = Inl (InvalidURL url)" by blast
  from t have c: "\<forall>url parts i. url_parts url = Inr parts \<and> i < length parts \<and> parts ! i = ''comments''
            \<and> (\<forall>j<i. parts ! j \<noteq> ''comments'') \<and> int i = int (length parts) - 4
          \<longrightarrow> id_from_url url_parts url = Inr (last parts)" by blast
  have r1: "id_from_url url_parts ''http://my.it/2gmzqe'' = Inl (InvalidURL ''http://my.it/2gmzqe'')"
    using a [rule_format, of "''http://my.it/2gmzqe''" "['''', ''2gmzqe'']"] p1 by simp
  have r2: "id_from_url url_parts ''http://reddit.com/comments/2gmzqe''
       = Inl (InvalidURL ''http://reddit.com/comments/2gmzqe'')"
    using b [rule_format, of "''http://reddit.com/comments/2gmzqe''" "['''', ''comments'', ''2gmzqe'']" 1] p2
    by simp
  have r3: "id_from_url url_parts ''http://reddit.com/comments/2gmzqe/_/cklhv0f'' = Inr ''cklhv0f''"
    using c [rule_format, of "''http://reddit.com/comments/2gmzqe/_/cklhv0f''"
        "['''', ''comments'', ''2gmzqe'', ''_'', ''cklhv0f'']" 1] p3
    by simp
  from p1 p2 p3 r1 r2 r3 show ?thesis by simp
qed

subsection \<open>Redditor.from_data and the author of a comment\<close>

lemma Redditor_init_name:
  "truthy name \<Longrightarrow>
     Redditor_init r name VNone VNone =
       Inr [(''_listing_use_sort'', VBool True), (''name'', name), (''_fetched'', VBool False)]"
proof -
  assume t: "truthy name"
  then have "name \<noteq> VNone" by auto
  with t show ?thesis
    by (simp add: Redditor_init_def RedditBase_init_def PRAWBase_init_def Redditor_setattr_def
        in_pydict_def)
qed

text \<open>
  C9, as amended. \<open>Redditor.from_data\<close> returns None exactly when its input is the string
  "[deleted]". For every other input that is truthy (a non-empty name) it returns a
  Redditor, the one the constructor builds with the input as \<open>name\<close>: its attributes
  are the sort flag, that name and the fetched flag, unset. The inputs the
  constructor refuses raise: None the usage TypeError, every other falsy input (the
  empty string) the ValueError of the base constructor. Setting the attribute
  \<open>author\<close> of a comment to "[deleted]" stores None, also when the comment is built
  from a payload; setting it to a name stores the Redditor of that name.
\<close>

theorem from_data_deleted:
  "(Redditor_from_data r data = Inr VNone \<longleftrightarrow> data = VStr ''[deleted]'')
   \<and> (truthy data \<and> data \<noteq> VStr ''[deleted]'' \<longrightarrow>
        Redditor_from_data r data =
          Inr (VObj ''Redditor''
                [(''_listing_use_sort'', VBool True), (''name'', data), (''_fetched'', VBool False)]))
   \<and> Redditor_from_data r VNone = Inl (TypeError Redditor_usage_msg)
   \<and> (\<not> truthy data \<and> data \<noteq> VNone \<longrightarrow>
        Redditor_from_data r data = Inl (ValueError ''An invalid value was specified for name.''))
   \<and> Comment_setattr r self ''author'' (VStr ''[deleted]'')
       = Inr (self\<lparr>c_dict := AList.update ''author'' VNone (c_dict self)\<rparr>)
   \<and> (\<exists>self'. Comment_setattr r self ''author'' (VStr ''[deleted]'') = Inr self'
         \<and> map_of (c_dict self') ''author'' = Some VNone)
   \<and> Comment_init r None None (VDict [(''id'', VStr i), (''author'', VStr ''[deleted]'')])
       = Inr \<lparr>c_dict = [(''id'', VStr i), (''author'', VNone)], c_replies = RepliesList [],
              c_submission = Some None, c_fetched = True\<rparr>
   \<and> (truthy data \<and> data \<noteq> VStr ''[deleted]'' \<longrightarrow>
        Comment_setattr r self ''author'' data
          = Inr (self\<lparr>c_dict := AList.update ''author''
                   (VObj ''Redditor''
                     [(''_listing_use_sort'', VBool True), (''name'', data), (''_fetched'', VBool False)])
                   (c_dict self)\<rparr>))"
proof -
  have named: "Redditor_from_data r data =
          Inr (VObj ''Redditor''
                [(''_listing_use_sort'', VBool True), (''name'', data), (''_fetched'', VBool False)])"
    if "truthy data" "data \<noteq> VStr ''[deleted]''"
    using that by (simp add: Redditor_from_data_def Redditor_init_name)
  have none: "Redditor_from_data r VNone = Inl (TypeError Redditor_usage_msg)"
    by (simp add: Redditor_from_data_def Redditor_init_def)
  have falsy: "Redditor_from_data r data = Inl (ValueError ''An invalid value was specified for name.'')"
    if "\<not> truthy data" "data \<noteq> VNone"
    using that
    by (auto simp: Redditor_from_data_def Redditor_init_def RedditBase_init_def PRAWBase_init_def
        Redditor_setattr_def in_pydict_def)
  have iff: "Redditor_from_data r data = Inr VNone \<longleftrightarrow> data = VStr ''[deleted]''"
  proof
    assume res: "Redditor_from_data r data = Inr VNone"
    show "data = VStr ''[deleted]''"
    proof (rule ccontr)
      assume ne: "data \<noteq> VStr ''[deleted]''"
      show False
      proof (cases "truthy data")
        case True
        from named [OF True ne] res show False by simp
      next
        case False
        show False
        proof (cases "data = VNone")
          case True
          with none res show False by simp
        next
          case nn: False
          from falsy [OF False nn] res show False by simp
        qed
      qed
    qed
  next
    assume "data = VStr ''[deleted]''"
    then show "Redditor_from_data r data = Inr VNone" by (simp add: Redditor_from_data_def)
  qed
  have del: "Redditor_from_data r (VStr ''[deleted]'') = Inr VNone"
    by (simp add: Redditor_from_data_def)
  have set_del: "Comment_setattr r self ''author'' (VStr ''[deleted]'')
       = Inr (self\<lparr>c_dict := AList.update ''author'' VNone (c_dict self)\<rparr>)"
    by (simp add: Comment_setattr_def del)
  have stored: "\<exists>self'. Comment_setattr r self ''author'' (VStr ''[deleted]'') = Inr self'
         \<and> map_of (c_dict self') ''author'' = Some VNone"
    by (simp add: set_del update_conv')
  have payload: "Comment_init r None None (VDict [(''id'', VStr i), (''author'', VStr ''[deleted]'')])
       = Inr \<lparr>c_dict = [(''id'', VStr i), (''author'', VNone)], c_replies = RepliesList [],
              c_submission = Some None, c_fetched = True\<rparr>"
    by (simp add: Comment_init_def RedditBase_init_def PRAWBase_init_def Comment_setattr_def del
        in_pydict_def)
  have set_name: "Comment_setattr r self ''author'' data
          = Inr (self\<lparr>c_dict := AList.update ''author''
                   (VObj ''Redditor''
                     [(''_listing_use_sort'', VBool True), (''name'', data), (''_fetched'', VBool False)])
                   (c_dict self)\<rparr>)"
    if "truthy data" "data \<noteq> VStr ''[deleted]''"
    using named [OF that] by (simp add: Comment_setattr_def)
  from iff named none falsy set_del stored payload set_name show ?thesis by blast
qed

theorem from_data_deleted_witness:
  "truthy (VStr ''spez'') \<and> VStr ''spez'' \<noteq> VStr ''[deleted]''
   \<and> Redditor_from_data test_reddit (VStr ''spez'')
       = Inr (VObj ''Redditor''
               [(''_listing_use_sort'', VBool True), (''name'', VStr ''spez''), (''_fetched'', VBool False)])
   \<and> \<not> truthy (VStr '''') \<and> VStr '''' \<noteq> VNone
   \<and> Redditor_from_data test_reddit (VStr '''')
       = Inl (ValueError ''An invalid value was specified for name.'')
   \<and> Redditor_from_data test_reddit (VStr ''[deleted]'') = Inr VNone"
proof -
  note a = from_data_deleted [of test_reddit "VStr ''spez''"]
  note b = from_data_deleted [of test_reddit "VStr ''''"]
  note c = from_data_deleted [of test_reddit "VStr ''[deleted]''"]
  have 1: "Redditor_from_data test_reddit (VStr ''spez'')
       = Inr (VObj ''Redditor''
               [(''_listing_use_sort'', VBool True), (''name'', VStr ''spez''), (''_fetched'', VBool False)])"
    using a by simp
  have 2: "Redditor_from_data test_reddit (VStr '''')
       = Inl (ValueError ''An invalid value was specified for name.'')"
    using b by simp
  have 3: "Redditor_from_data test_reddit (VStr ''[deleted]'') = Inr VNone"
    using c by simp
  from 1 2 3 show ?thesis by simp
qed

text \<open>
  The claim as stated promises a Redditor for every input other than "[deleted]". The
  constructor refuses None, which counts as no identity input at all, and the empty
  name.
\<close>

theorem from_data_none_counterexample:
  "Redditor_from_data test_reddit VNone = Inl (TypeError Redditor_usage_msg)
   \<and> Redditor_from_data test_reddit (VStr '''')
       = Inl (ValueError ''An invalid value was specified for name.'')"
  by (simp add: Redditor_from_data_def Redditor_init_def RedditBase_init_def PRAWBase_init_def
      Redditor_setattr_def in_pydict_def)

subsection \<open>The assertion on a Redditor payload\<close>





subsection \<open>Cursors of the listing subtypes\<close>



subsection \<open>The error classifier\<close>

lemma to_error_item_triple: "to_error_item (triple_raw x) = Some (triple_item x)"
  by (cases x) simp

text \<open>
  C3. \<open>parse_error\<close> returns None, without raising, for the empty mapping, the empty
  list, a mapping without "json", a mapping whose "json" has no "errors", and every
  list. For an envelope whose errors array is empty it raises an exception of
  ClientException kind. For an envelope whose errors array holds n triples, n at least
  1, it returns a RedditAPIException with exactly n items, the i-th built from the
  three components of the i-th triple.
\<close>

theorem parse_error_envelope:
  "parse_error (VDict []) = Inr None
   \<and> parse_error (VList []) = Inr None
   \<and> parse_error (VDict [(''asdf'', VInt 1)]) = Inr None
   \<and> (\<forall>xs. parse_error (VList xs) = Inr None)
   \<and> (\<forall>d. map_of d ''json'' = None \<longrightarrow> parse_error (VDict d) = Inr None)
   \<and> (\<forall>d j. map_of d ''json'' = Some (VDict j) \<and> map_of j ''errors'' = None
         \<longrightarrow> parse_error (VDict d) = Inr None)
   \<and> (\<forall>d j. map_of d ''json'' = Some (VDict j) \<and> map_of j ''errors'' = Some (VList [])
         \<longrightarrow> (\<exists>e. parse_error (VDict d) = Inl e \<and> is_ClientException e))
   \<and> (\<forall>d j triples. map_of d ''json'' = Some (VDict j)
           \<and> map_of j ''errors'' = Some (VList (map triple_raw triples)) \<and> triples \<noteq> []
         \<longrightarrow> parse_error (VDict d) = Inr (Some (RedditAPIException (map triple_item triples)))
             \<and> length (exception_items (RedditAPIException (map triple_item triples))) = length triples)"
proof (intro conjI allI impI)
  fix d j triples
  assume a: "map_of d ''json'' = Some (VDict j)
           \<and> map_of j ''errors'' = Some (VList (map triple_raw triples)) \<and> triples \<noteq> []"
  have all: "list_all (\<lambda>e. to_error_item e \<noteq> None) (map triple_raw triples)"
    by (simp add: list_all_iff to_error_item_triple)
  have "map (\<lambda>e. the (to_error_item e)) (map triple_raw triples) = map triple_item triples"
    by (simp add: to_error_item_triple)
  with a all show "parse_error (VDict d) = Inr (Some (RedditAPIException (map triple_item triples)))"
    by (simp add: parse_error_def)
  show "length (exception_items (RedditAPIException (map triple_item triples))) = length triples"
    by simp
qed (simp_all add: parse_error_def)

theorem parse_error_envelope_witness:
  "parse_error (VDict [(''json'', VDict [(''errors'', VList [])])])
     = Inl (ClientException ''no error detected where one was expected'')
   \<and> parse_error (VDict [(''json'', VDict [(''errors'',
        VList [VList [VStr ''USER_REQUIRED'', VStr ''Please log in to do that.'', VNone],
               VList [VStr ''NO_SUBJECT'', VStr ''please enter a subject'', VStr ''subject'']])])])
     = Inr (Some (RedditAPIException
         [RedditErrorItem (VStr ''USER_REQUIRED'') (VStr ''Please log in to do that.'') VNone,
          RedditErrorItem (VStr ''NO_SUBJECT'') (VStr ''please enter a subject'') (VStr ''subject'')]))"
proof -
  note t = parse_error_envelope
  from t have e: "\<forall>d j. map_of d ''json'' = Some (VDict j) \<and> map_of j ''errors'' = Some (VList [])
         \<longrightarrow> (\<exists>e. parse_error (VDict d) = Inl e \<and> is_ClientException e)" by blast
  from t have f: "\<forall>d j triples. map_of d ''json'' = Some (VDict j)
           \<and> map_of j ''errors'' = Some (VList (map triple_raw triples)) \<and> triples \<noteq> []
         \<longrightarrow> parse_error (VDict d) = Inr (Some (RedditAPIException (map triple_item triples)))" by blast
  have "\<exists>e. parse_error (VDict [(''json'', VDict [(''errors'', VList [])])]) = Inl e \<and> is_ClientException e"
    using e [rule_format, of "[(''json'', VDict [(''errors'', VList [])])]" "[(''errors'', VList [])]"]
    by simp
  then have 1: "parse_error (VDict [(''json'', VDict [(''errors'', VList [])])])
     = Inl (ClientException ''no error detected where one was expected'')"
    by (simp add: parse_error_def)
  have 2: "parse_error (VDict [(''json'', VDict [(''errors'',
        VList [VList [VStr ''USER_REQUIRED'', VStr ''Please log in to do that.'', VNone],
               VList [VStr ''NO_SUBJECT'', VStr ''please enter a subject'', VStr ''subject'']])])])
     = Inr (Some (RedditAPIException
         [RedditErrorItem (VStr ''USER_REQUIRED'') (VStr ''Please log in to do that.'') VNone,
          RedditErrorItem (VStr ''NO_SUBJECT'') (VStr ''please enter a subject'') (VStr ''subject'')]))"
    using f [rule_format, of "[(''json'', VDict [(''errors'',
        VList [VList [VStr ''USER_REQUIRED'', VStr ''Please log in to do that.'', VNone],
               VList [VStr ''NO_SUBJECT'', VStr ''please enter a subject'', VStr ''subject'']])])]"
        "[(''errors'',
        VList [VList [VStr ''USER_REQUIRED'', VStr ''Please log in to do that.'', VNone],
               VList [VStr ''NO_SUBJECT'', VStr ''please enter a subject'', VStr ''subject'']])]"
        "[(VStr ''USER_REQUIRED'', VStr ''Please log in to do that.'', VNone),
          (VStr ''NO_SUBJECT'', VStr ''please enter a subject'', VStr ''subject'')]"]
    by simp
  from 1 2 show ?thesis by simp
qed

subsection \<open>The parent of a comment\<close>

lemma Comment_getattr_cached:
  "heap w a = Some (OComment c) \<Longrightarrow> map_of (c_dict c) name = Some v \<Longrightarrow>
     Comment_getattr r a name w = Inr (v, w)"
  by (simp add: Comment_getattr_def)

lemma Comment_submission_cached:
  "heap w a = Some (OComment c) \<Longrightarrow> c_submission c = Some (Some s) \<Longrightarrow>
     Comment_submission r a w = Inr (s, w)"
  by (simp add: Comment_submission_def)

lemma Comment_init_ident:
  "i \<noteq> [] \<Longrightarrow> Comment_init r (Some i) None VNone =
     Inr \<lparr>c_dict = [(''id'', VStr i)], c_replies = RepliesList [], c_submission = Some None,
          c_fetched = False\<rparr>"
  by (simp add: Comment_init_def Comment_setattr_def RedditBase_init_def PRAWBase_init_def
        in_pydict_def)

lemma Comment_fetch_requests:
  "Comment_fetch r a w = Inr w' \<Longrightarrow> \<exists>q. requests w' = requests w @ [q]"
  by (auto simp: Comment_fetch_def Let_def put_def split: option.splits obj.splits sum.splits if_splits)

lemma Comment_getattr_quiet:
  "Comment_getattr r a name w = Inr (v, w') \<Longrightarrow> requests w' = requests w \<Longrightarrow> w' = w"
  by (auto simp: Comment_getattr_def split: option.splits obj.splits sum.splits if_splits
      dest!: Comment_fetch_requests)

lemma Comment_extract_submission_id_quiet:
  "Comment_extract_submission_id r a w = Inr (sid, w') \<Longrightarrow> requests w' = requests w \<Longrightarrow> w' = w"
  by (auto simp: Comment_extract_submission_id_def
      split: option.splits obj.splits sum.splits if_splits pyval.splits prod.splits
      dest: Comment_getattr_quiet)

lemma Comment_submission_quiet:
  assumes "heap w a = Some (OComment c)" and "Comment_submission r a w = Inr (s, w1)"
    and "requests w1 = requests w"
  shows "heap w1 a = Some (OComment (c\<lparr>c_submission := Some (Some s)\<rparr>))"
proof (cases "c_submission c")
  case None
  with assms show ?thesis by (simp add: Comment_submission_def)
next
  case (Some v)
  show ?thesis
  proof (cases v)
    case (Some s0)
    with \<open>c_submission c = Some v\<close> assms(1,2) have "s0 = s" "w1 = w"
      by (simp_all add: Comment_submission_def)
    moreover have "c\<lparr>c_submission := Some (Some s0)\<rparr> = c"
      using Some \<open>c_submission c = Some v\<close> by simp
    ultimately show ?thesis using assms(1) by simp
  next
    case None
    with \<open>c_submission c = Some v\<close> assms(1,2) obtain sid w' c2 where
      ex: "Comment_extract_submission_id r a w = Inr (sid, w')"
      and sidne: "sid \<noteq> []"
      and s: "s = next_addr w'"
      and h2: "((heap w')(next_addr w' \<mapsto> OSubmission \<lparr>s_id = sid, s_comments_by_id = Map.empty\<rparr>)) a
                 = Some (OComment c2)"
      and w1: "w1 = put a (OComment (c2\<lparr>c_submission := Some (Some s)\<rparr>))
                 (w'\<lparr>heap := (heap w')(next_addr w' \<mapsto> OSubmission \<lparr>s_id = sid, s_comments_by_id = Map.empty\<rparr>),
                     next_addr := Suc (next_addr w')\<rparr>)"
      by (auto simp: Comment_submission_def reddit_submission_def alloc_def
          split: sum.splits prod.splits if_splits option.splits obj.splits)
    from w1 have "requests w1 = requests w'" by (simp add: put_def)
    with assms(3) have "requests w' = requests w" by simp
    with ex have "w' = w" by (rule Comment_extract_submission_id_quiet)
    with h2 assms(1) have "c2 = c" by (auto split: if_splits)
    with w1 show ?thesis by (simp add: put_def)
  qed
qed

text \<open>
  C6, as amended. Take a comment whose \<open>parent_id\<close> is loaded, and whose submission is
  set or is built from its loaded context or \<open>link_id\<close>, so that reading the property
  \<open>submission\<close> sends no request; \<open>w1\<close> is the store after that read (the store itself
  when the submission was set). When \<open>parent_id\<close> is the submission's fullname,
  \<open>parent()\<close> returns the submission. Otherwise, when \<open>parent_id\<close> is a key of the
  submission's index, it returns the comment stored there. Otherwise, for a
  \<open>parent_id\<close> of the form prefix, underscore, non-empty id, it returns a new comment,
  not fetched, whose id is \<open>parent_id\<close> without the prefix and whose submission is the
  same submission. In all three cases nothing else changes and no request is sent.
\<close>

theorem parent_resolution:
  assumes "heap w a = Some (OComment c)"
    and "map_of (c_dict c) ''parent_id'' = Some (VStr pid)"
    and "Comment_submission r a w = Inr (s, w1)"
    and "requests w1 = requests w"
    and "heap w1 s = Some (OSubmission sub)"
  shows "(\<forall>s0. c_submission c = Some (Some s0) \<longrightarrow> s0 = s \<and> w1 = w)
    \<and> (pid = Submission_fullname r sub \<longrightarrow> Comment_parent r a w = Inr (s, w1))
    \<and> (\<forall>p. pid \<noteq> Submission_fullname r sub \<and> s_comments_by_id sub pid = Some p
          \<longrightarrow> Comment_parent r a w = Inr (p, w1))
    \<and> (\<forall>i. pid \<noteq> Submission_fullname r sub \<and> s_comments_by_id sub pid = None
            \<and> list_get (split_max CHR ''_'' 1 pid) 1 = Inr i \<and> i \<noteq> [] \<and> heap w1 (next_addr w1) = None
          \<longrightarrow> Comment_parent r a w =
                Inr (next_addr w1,
                     w1\<lparr>heap := (heap w1)(next_addr w1 \<mapsto>
                          OComment \<lparr>c_dict = [(''id'', VStr i)], c_replies = RepliesList [],
                                    c_submission = Some (Some s), c_fetched = False\<rparr>),
                        next_addr := Suc (next_addr w1)\<rparr>))
    \<and> (\<forall>p w'. heap w1 (next_addr w1) = None \<and> Comment_parent r a w = Inr (p, w')
          \<longrightarrow> requests w' = requests w)"
proof -
  define c1 where "c1 = c\<lparr>c_submission := Some (Some s)\<rparr>"
  have h1: "heap w1 a = Some (OComment c1)"
    unfolding c1_def using assms(1,3,4) by (rule Comment_submission_quiet)
  have pid1: "map_of (c_dict c1) ''parent_id'' = Some (VStr pid)" "c_submission c1 = Some (Some s)"
    using assms(2) by (simp_all add: c1_def)
  note g0 = Comment_getattr_cached [OF assms(1) assms(2), of r]
  note g = Comment_getattr_cached [OF h1 pid1(1), of r]
  note sb = Comment_submission_cached [OF h1 pid1(2), of r]
  have 0: "\<forall>s0. c_submission c = Some (Some s0) \<longrightarrow> s0 = s \<and> w1 = w"
    using assms(1,3) by (auto simp: Comment_submission_def)
  have 1: "pid = Submission_fullname r sub \<longrightarrow> Comment_parent r a w = Inr (s, w1)"
    using g0 assms(3) g sb assms(5) by (simp add: Comment_parent_def)
  have 2: "\<forall>p. pid \<noteq> Submission_fullname r sub \<and> s_comments_by_id sub pid = Some p
          \<longrightarrow> Comment_parent r a w = Inr (p, w1)"
    using g0 assms(3) g sb assms(5) by (simp add: Comment_parent_def)
  have 3: "Comment_parent r a w =
                Inr (next_addr w1,
                     w1\<lparr>heap := (heap w1)(next_addr w1 \<mapsto>
                          OComment \<lparr>c_dict = [(''id'', VStr i)], c_replies = RepliesList [],
                                    c_submission = Some (Some s), c_fetched = False\<rparr>),
                        next_addr := Suc (next_addr w1)\<rparr>)"
    if h: "pid \<noteq> Submission_fullname r sub" "s_comments_by_id sub pid = None"
       "list_get (split_max CHR ''_'' 1 pid) 1 = Inr i" "i \<noteq> []" "heap w1 (next_addr w1) = None" for i
  proof -
    from h(5) h1 have na: "next_addr w1 \<noteq> a" by auto
    define parent where "parent = \<lparr>c_dict = [(''id'', VStr i)], c_replies = RepliesList [],
        c_submission = Some None, c_fetched = False\<rparr>"
    define w5 where "w5 = w1\<lparr>heap := (heap w1)(next_addr w1 \<mapsto> OComment parent),
        next_addr := Suc (next_addr w1)\<rparr>"
    have al: "alloc (OComment parent) w1 = (next_addr w1, w5)"
      by (simp add: alloc_def w5_def)
    have "heap w5 a = Some (OComment c1)" using na h1 by (simp add: w5_def)
    then have sb5: "Comment_submission r a w5 = Inr (s, w5)"
      using pid1(2) by (rule Comment_submission_cached)
    have "Comment_parent r a w = Inr (next_addr w1, put (next_addr w1)
            (OComment (parent\<lparr>c_submission := Some (Some s)\<rparr>)) w5)"
      using g0 assms(3) g sb assms(5) h Comment_init_ident [OF h(4), of r] al sb5
      by (simp add: Comment_parent_def parent_def)
    then show ?thesis by (simp add: put_def w5_def parent_def)
  qed
  have 4: "\<forall>p w'. heap w1 (next_addr w1) = None \<and> Comment_parent r a w = Inr (p, w')
          \<longrightarrow> requests w' = requests w"
  proof (intro allI impI)
    fix p w'
    assume "heap w1 (next_addr w1) = None \<and> Comment_parent r a w = Inr (p, w')"
    then have fresh: "heap w1 (next_addr w1) = None" and res: "Comment_parent r a w = Inr (p, w')"
      by simp_all
    show "requests w' = requests w"
    proof (cases "pid = Submission_fullname r sub")
      case True
      with 1 res assms(4) show ?thesis by simp
    next
      case False
      show ?thesis
      proof (cases "s_comments_by_id sub pid")
        case (Some q)
        with 2 False res assms(4) show ?thesis by simp
      next
        case None
        from res g0 assms(3) g sb assms(5) False None obtain i parent where
          i: "list_get (split_max CHR ''_'' 1 pid) 1 = Inr i"
          and p: "Comment_init r (Some i) None VNone = Inr parent"
          by (auto simp: Comment_parent_def split: sum.splits prod.splits)
        have "i \<noteq> []"
        proof
          assume "i = []"
          with p show False
            by (simp add: Comment_init_def RedditBase_init_def PRAWBase_init_def in_pydict_def)
        qed
        from 3 [OF False None i this fresh] res assms(4) show ?thesis by auto
      qed
    qed
  qed
  from 0 1 2 3 4 show ?thesis by blast
qed

theorem parent_resolution_witness:
  "Comment_parent test_reddit 2 thread_world = Inr (0, thread_world)
   \<and> Comment_parent test_reddit 1 thread_world = Inr (2, thread_world)
   \<and> Comment_parent test_reddit 3 thread_world =
        Inr (4, thread_world\<lparr>heap := (heap thread_world)(4 \<mapsto>
                    OComment \<lparr>c_dict = [(''id'', VStr ''q'')], c_replies = RepliesList [],
                              c_submission = Some (Some 0), c_fetched = False\<rparr>),
                  next_addr := 5\<rparr>)
   \<and> requests thread_world = []
   \<and> map_sum id (\<lambda>pw. (fst pw, requests (snd pw), heap (snd pw) 2))
        (Comment_parent test_reddit 0 fetched_world)
       = Inr (2, [], Some (OComment \<lparr>c_dict = [(''id'', VStr ''p'')], c_replies = RepliesList [],
                                      c_submission = Some (Some 1), c_fetched = False\<rparr>))"
proof -
  have s: "heap thread_world 0
      = Some (OSubmission \<lparr>s_id = ''s'', s_comments_by_id = Map.empty(''t1_p'' \<mapsto> 2)\<rparr>)"
    by (simp add: thread_world_def)
  have fn: "Submission_fullname test_reddit \<lparr>s_id = ''s'', s_comments_by_id = Map.empty(''t1_p'' \<mapsto> 2)\<rparr>
      = ''t3_s''"
    by (simp add: Submission_fullname_def test_reddit_def)
  have c2: "heap thread_world 2 = Some (OComment \<lparr>c_dict = [(''id'', VStr ''p''), (''parent_id'', VStr ''t3_s'')],
                          c_replies = RepliesList [1], c_submission = Some (Some 0), c_fetched = True\<rparr>)"
    by (simp add: thread_world_def)
  have c1: "heap thread_world 1 = Some (OComment \<lparr>c_dict = [(''id'', VStr ''c1''), (''parent_id'', VStr ''t1_p'')],
                          c_replies = RepliesList [], c_submission = Some (Some 0), c_fetched = True\<rparr>)"
    by (simp add: thread_world_def)
  have c3: "heap thread_world 3 = Some (OComment \<lparr>c_dict = [(''id'', VStr ''c3''), (''parent_id'', VStr ''t1_q'')],
                          c_replies = RepliesList [], c_submission = Some (Some 0), c_fetched = True\<rparr>)"
    by (simp add: thread_world_def)
  have sb: "Comment_submission test_reddit 2 thread_world = Inr (0, thread_world)"
    "Comment_submission test_reddit 1 thread_world = Inr (0, thread_world)"
    "Comment_submission test_reddit 3 thread_world = Inr (0, thread_world)"
    by (simp_all add: Comment_submission_def thread_world_def)
  have r2: "Comment_parent test_reddit 2 thread_world = Inr (0, thread_world)"
    using parent_resolution [OF c2 _ sb(1) refl s, of "''t3_s''"] fn by simp
  have r1: "Comment_parent test_reddit 1 thread_world = Inr (2, thread_world)"
    using parent_resolution [OF c1 _ sb(2) refl s, of "''t1_p''"] fn by simp
  have sp: "list_get (split_max CHR ''_'' 1 ''t1_q'') 1 = Inr ''q''"
    by (simp add: list_get_def)
  have fr: "heap thread_world (next_addr thread_world) = None" "next_addr thread_world = 4"
    by (simp_all add: thread_world_def)
  have r3: "Comment_parent test_reddit 3 thread_world =
        Inr (4, thread_world\<lparr>heap := (heap thread_world)(4 \<mapsto>
                    OComment \<lparr>c_dict = [(''id'', VStr ''q'')], c_replies = RepliesList [],
                              c_submission = Some (Some 0), c_fetched = False\<rparr>),
                  next_addr := 5\<rparr>)"
    using parent_resolution [OF c3 _ sb(3) refl s, of "''t1_q''"] fn sp fr by simp
  let ?c = "\<lparr>c_dict = [(''id'', VStr ''c1''), (''parent_id'', VStr ''t1_p''), (''link_id'', VStr ''t3_s'')],
                          c_replies = RepliesList [], c_submission = Some None, c_fetched = True\<rparr>"
  let ?sub = "\<lparr>s_id = ''s'', s_comments_by_id = Map.empty\<rparr>"
  define w1 where "w1 = fetched_world\<lparr>heap := (heap fetched_world)
      (1 \<mapsto> OSubmission ?sub, 0 \<mapsto> OComment (?c\<lparr>c_submission := Some (Some 1)\<rparr>)), next_addr := 2\<rparr>"
  have f0: "heap fetched_world 0 = Some (OComment ?c)"
    by (simp add: fetched_world_def)
  have fsb: "Comment_submission test_reddit 0 fetched_world = Inr (1, w1)"
    by (simp add: Comment_submission_def Comment_extract_submission_id_def Comment_getattr_def
        reddit_submission_def alloc_def put_def fetched_world_def in_pydict_def list_get_def w1_def)
  have fq: "requests w1 = requests fetched_world" by (simp add: w1_def)
  have fs: "heap w1 1 = Some (OSubmission ?sub)" by (simp add: w1_def)
  have ffn: "''t1_p'' \<noteq> Submission_fullname test_reddit ?sub"
    by (simp add: Submission_fullname_def test_reddit_def)
  have ffr: "heap w1 (next_addr w1) = None" "next_addr w1 = 2"
    by (simp_all add: w1_def fetched_world_def)
  have sp1: "list_get (split_max CHR ''_'' 1 ''t1_p'') 1 = Inr ''p''"
    by (simp add: list_get_def)
  have "Comment_parent test_reddit 0 fetched_world =
        Inr (2, w1\<lparr>heap := (heap w1)(2 \<mapsto>
                    OComment \<lparr>c_dict = [(''id'', VStr ''p'')], c_replies = RepliesList [],
                              c_submission = Some (Some 1), c_fetched = False\<rparr>),
                  next_addr := 3\<rparr>)"
    using parent_resolution [OF f0 _ fsb fq fs, of "''t1_p''"] ffn sp1 ffr by simp
  then have r4: "map_sum id (\<lambda>pw. (fst pw, requests (snd pw), heap (snd pw) 2))
        (Comment_parent test_reddit 0 fetched_world)
       = Inr (2, [], Some (OComment \<lparr>c_dict = [(''id'', VStr ''p'')], c_replies = RepliesList [],
                                      c_submission = Some (Some 1), c_fetched = False\<rparr>))"
    by (simp add: w1_def fetched_world_def)
  have "requests thread_world = []" by (simp add: thread_world_def)
  with r1 r2 r3 r4 show ?thesis by simp
qed

text \<open>
  The claim as stated fails for a comment that is not yet fetched: reading
  \<open>parent_id\<close> fetches the comment, so \<open>parent()\<close> sends one request before it takes any
  of the three branches (the docstring of \<open>parent\<close> warns of it).
\<close>

theorem parent_fetch_counterexample:
  "requests shallow_world = []
   \<and> map_sum id (\<lambda>pw. (fst pw, requests (snd pw))) (Comment_parent info_reddit 0 shallow_world)
       = Inr (2, [Request ''api/info/'' [(''id'', VStr ''t1_c1'')]])"
  by code_simp

subsection \<open>Assigning a submission\<close>

declare assign_submission.simps [simp del]

lemma world_eqI:
  "heap w1 = heap w2 \<Longrightarrow> next_addr w1 = next_addr w2 \<Longrightarrow> requests w1 = requests w2 \<Longrightarrow>
     w1 = (w2 :: world)"
  by (cases w1; cases w2) simp

lemma represents_frame:
  "represents h t \<Longrightarrow> (\<And>y. y \<in> set (addrs t) \<Longrightarrow> h' y = h y) \<Longrightarrow> represents h' t"
proof (induction t)
  case (CommentNode x i ts)
  from CommentNode.prems(1) obtain c where c: "h x = Some (OComment c)"
    "map_of (c_dict c) ''id'' = Some (VStr i)" "replies_list (c_replies c) = map root ts"
    "list_all (represents h) ts"
    by (auto split: option.splits obj.splits)
  have "h' x = h x" using CommentNode.prems(2) by simp
  moreover have "list_all (represents h') ts"
    unfolding list_all_iff
  proof
    fix t assume t: "t \<in> set ts"
    with c(4) have "represents h t" by (simp add: list_all_iff)
    moreover have "\<And>y. y \<in> set (addrs t) \<Longrightarrow> h' y = h y"
      using CommentNode.prems(2) t by auto
    ultimately show "represents h' t" using CommentNode.IH t by blast
  qed
  ultimately show ?case using c by simp
next
  case (MoreNode x)
  then show ?case by (auto split: option.splits obj.splits)
qed

lemma tree_depth_child: "t \<in> set ts \<Longrightarrow> tree_depth t \<le> fold max (map tree_depth ts) 0"
proof -
  have "\<And>a. a \<le> fold max (map tree_depth ts) a \<and> (\<forall>t\<in>set ts. tree_depth t \<le> fold max (map tree_depth ts) a)"
  proof (induction ts)
    case Nil
    show ?case by simp
  next
    case (Cons u us)
    from Cons [of "max (tree_depth u) a"] show ?case by auto
  qed
  then show "t \<in> set ts \<Longrightarrow> tree_depth t \<le> fold max (map tree_depth ts) 0" by blast
qed

lemma register_Nil [simp]: "register [] ob = ob"
  by (cases ob) simp_all

lemma register_append: "register b (register a ob) = register (a @ b) ob"
  by (cases ob) (simp_all add: map_add_assoc)

lemma map_option_register_Nil [simp]: "map_option (register []) v = v"
  by (cases v) simp_all

lemma reparented_Nil: "reparented r s [] w = w"
  by (rule world_eqI) (auto simp: reparented_def fun_eq_iff)

lemma reparented_Cons:
  assumes "set (addrs t) \<inter> set (concat (map addrs ts)) = {}"
    and "s \<notin> set (addrs t)" and "s \<notin> set (concat (map addrs ts))"
  shows "reparented r s ts (reparented r s [t] w) = reparented r s (t # ts) w"
proof (rule world_eqI)
  show "heap (reparented r s ts (reparented r s [t] w)) = heap (reparented r s (t # ts) w)"
  proof
    fix y
    consider "y \<in> set (addrs t)" | "y \<in> set (concat (map addrs ts))" | "y = s"
      | "y \<notin> set (addrs t)" "y \<notin> set (concat (map addrs ts))" "y \<noteq> s"
      by blast
    then show "heap (reparented r s ts (reparented r s [t] w)) y = heap (reparented r s (t # ts) w) y"
    proof cases
      case 1
      with assms have "y \<notin> set (concat (map addrs ts))" "y \<noteq> s" by auto
      with 1 show ?thesis by (simp add: reparented_def)
    next
      case 2
      with assms have "y \<notin> set (addrs t)" "y \<noteq> s" by auto
      with 2 show ?thesis by (simp add: reparented_def)
    next
      case 3
      with assms show ?thesis
        by (simp add: reparented_def option.map_comp comp_def register_append)
    next
      case 4
      then show ?thesis by (simp add: reparented_def)
    qed
  qed
qed (simp_all add: reparented_def)

lemma reparented_CommentNode:
  assumes "heap w x = Some (OComment c)" and "heap w s = Some (OSubmission sub)"
    and "x \<notin> set (concat (map addrs ts))" and "s \<notin> set (concat (map addrs ts))" and "x \<noteq> s"
  shows "reparented r s ts
           (w\<lparr>heap := (heap w)
                (s \<mapsto> OSubmission (sub\<lparr>s_comments_by_id :=
                        (s_comments_by_id sub)(kinds r ''comment'' @ ''_'' @ i \<mapsto> x)\<rparr>),
                 x \<mapsto> reparent s (OComment c))\<rparr>)
         = reparented r s [CommentNode x i ts] w"
proof (rule world_eqI)
  let ?w3 = "w\<lparr>heap := (heap w)
                (s \<mapsto> OSubmission (sub\<lparr>s_comments_by_id :=
                        (s_comments_by_id sub)(kinds r ''comment'' @ ''_'' @ i \<mapsto> x)\<rparr>),
                 x \<mapsto> reparent s (OComment c))\<rparr>"
  show "heap (reparented r s ts ?w3) = heap (reparented r s [CommentNode x i ts] w)"
  proof
    fix y
    consider "y = x" | "y \<in> set (concat (map addrs ts))" | "y = s"
      | "y \<noteq> x" "y \<notin> set (concat (map addrs ts))" "y \<noteq> s"
      by blast
    then show "heap (reparented r s ts ?w3) y = heap (reparented r s [CommentNode x i ts] w) y"
    proof cases
      case 1
      with assms show ?thesis by (simp add: reparented_def)
    next
      case 2
      with assms have "y \<noteq> x" "y \<noteq> s" by auto
      with 2 show ?thesis by (simp add: reparented_def)
    next
      case 3
      have "(s_comments_by_id sub)(kinds r ''comment'' @ ''_'' @ i \<mapsto> x)
              ++ map_of (rev (concat (map (registrations (kinds r ''comment'')) ts)))
            = s_comments_by_id sub
              ++ map_of (rev (concat (map (registrations (kinds r ''comment'')) ts))
                         @ [(kinds r ''comment'' @ ''_'' @ i, x)])"
        by (simp add: map_add_assoc [symmetric])
      with 3 assms show ?thesis by (simp add: reparented_def)
    next
      case 4
      then show ?thesis by (simp add: reparented_def)
    qed
  qed
qed (simp_all add: reparented_def)

lemma Comment_replies_cached:
  assumes "heap w x = Some (OComment c)" and "c_submission c = Some (Some s)"
  shows "\<exists>w'. Comment_replies r x w = Inr (replies_list (c_replies c), w')
           \<and> heap w' = (heap w)(x \<mapsto> OComment (c\<lparr>c_replies :=
                 (case c_replies c of RepliesList xs \<Rightarrow> CommentForest s xs
                  | CommentForest f xs \<Rightarrow> CommentForest f xs)\<rparr>))
           \<and> next_addr w' = next_addr w \<and> requests w' = requests w"
proof (cases "c_replies c")
  case (RepliesList xs)
  with assms show ?thesis
    by (simp add: Comment_replies_def Comment_submission_def put_def)
next
  case (CommentForest f xs)
  have "(heap w)(x \<mapsto> OComment (c\<lparr>c_replies := CommentForest f xs\<rparr>)) = heap w"
    using assms(1) CommentForest by (auto simp: fun_eq_iff)
  with assms CommentForest show ?thesis
    by (simp add: Comment_replies_def)
qed

lemma assign_tree:
  "represents (heap w) t \<Longrightarrow> distinct (addrs t) \<Longrightarrow> s \<notin> set (addrs t) \<Longrightarrow>
   heap w s = Some (OSubmission sub) \<Longrightarrow> tree_depth t \<le> fuel \<Longrightarrow>
     assign_submission fuel r s (root t) w = Inr (reparented r s [t] w)"
proof (induction t arbitrary: w sub fuel)
  case (MoreNode x)
  from MoreNode.prems(1) obtain m where m: "heap w x = Some (OMore m)"
    by (auto split: option.splits obj.splits)
  from MoreNode.prems(3) have xs: "x \<noteq> s" by simp
  have "put x (OMore (AList.update ''submission'' (VRef s) m)) w = reparented r s [MoreNode x] w"
    by (rule world_eqI) (use m xs MoreNode.prems(4) in \<open>auto simp: put_def reparented_def fun_eq_iff\<close>)
  with m show ?case by (simp add: assign_submission.simps)
next
  case (CommentNode x i ts)
  from CommentNode.prems(1) obtain c where c: "heap w x = Some (OComment c)"
    "map_of (c_dict c) ''id'' = Some (VStr i)" "replies_list (c_replies c) = map root ts"
    "list_all (represents (heap w)) ts"
    by (auto split: option.splits obj.splits)
  from CommentNode.prems(5) obtain d where d: "fuel = Suc d" "fold max (map tree_depth ts) 0 \<le> d"
    by (cases fuel) auto
  from CommentNode.prems(2,3) have xs: "x \<noteq> s" "x \<notin> set (concat (map addrs ts))"
    "s \<notin> set (concat (map addrs ts))" "distinct (concat (map addrs ts))"
    by auto
  have fn: "Comment_fullname r w x = Inr (kinds r ''comment'' @ ''_'' @ i)"
    using c by (simp add: Comment_fullname_def thing_id_def fullname_of_def)
  define sub1 where "sub1 = sub\<lparr>s_comments_by_id :=
      (s_comments_by_id sub)(kinds r ''comment'' @ ''_'' @ i \<mapsto> x)\<rparr>"
  define w2 where "w2 = put x (OComment (c\<lparr>c_submission := Some (Some s)\<rparr>)) (put s (OSubmission sub1) w)"
  have h2: "heap w2 x = Some (OComment (c\<lparr>c_submission := Some (Some s)\<rparr>))"
    by (simp add: w2_def put_def)
  from Comment_replies_cached [OF h2, of s r] obtain w3 where
    w3: "Comment_replies r x w2 = Inr (replies_list (c_replies c), w3)"
      "heap w3 = (heap w2)(x \<mapsto> reparent s (OComment c))"
      "next_addr w3 = next_addr w2" "requests w3 = requests w2"
    by auto
  have w3eq: "w3 = w\<lparr>heap := (heap w)(s \<mapsto> OSubmission sub1, x \<mapsto> reparent s (OComment c))\<rparr>"
    by (rule world_eqI) (use w3 xs in \<open>auto simp: w2_def put_def fun_eq_iff\<close>)
  have step: "assign_submission fuel r s x w = assign_submission_all d r s (map root ts) w3"
    using c fn d CommentNode.prems(4) w3(1)
    by (simp add: assign_submission.simps [of "Suc d"] sub1_def w2_def Let_def)
  have all: "assign_submission_all d r s (map root us) v = Inr (reparented r s us v)"
    if "set us \<subseteq> set ts" "list_all (represents (heap v)) us" "distinct (concat (map addrs us))"
       "s \<notin> set (concat (map addrs us))" "heap v s = Some (OSubmission sb)" for us v sb
    using that
  proof (induction us arbitrary: v sb)
    case Nil
    then show ?case by (simp add: reparented_Nil)
  next
    case (Cons u us)
    from Cons.prems have u: "u \<in> set ts" "represents (heap v) u" "distinct (addrs u)"
      "s \<notin> set (addrs u)" by auto
    from tree_depth_child [OF u(1)] d(2) have du: "tree_depth u \<le> d" by simp
    from CommentNode.IH [OF u(1) u(2) u(3) u(4) Cons.prems(5) du]
    have a1: "assign_submission d r s (root u) v = Inr (reparented r s [u] v)" .
    let ?v1 = "reparented r s [u] v"
    from Cons.prems have disj: "set (addrs u) \<inter> set (concat (map addrs us)) = {}"
      "s \<notin> set (concat (map addrs us))" "distinct (concat (map addrs us))"
      by auto
    have rep1: "list_all (represents (heap ?v1)) us"
      unfolding list_all_iff
    proof
      fix t assume t: "t \<in> set us"
      with Cons.prems(2) have "represents (heap v) t" by (simp add: list_all_iff)
      moreover have "\<And>y. y \<in> set (addrs t) \<Longrightarrow> heap ?v1 y = heap v y"
        using t disj by (auto simp: reparented_def)
      ultimately show "represents (heap ?v1) t" by (rule represents_frame)
    qed
    obtain sb1 where sb1: "heap ?v1 s = Some (OSubmission sb1)"
      using Cons.prems(5) u(4) by (auto simp: reparented_def)
    from Cons.prems(1) have sub: "set us \<subseteq> set ts" by auto
    from Cons.IH [OF sub rep1 disj(3) disj(2) sb1]
    have "assign_submission_all d r s (map root us) ?v1 = Inr (reparented r s us ?v1)" .
    with a1 reparented_Cons [OF disj(1) u(4) disj(2), of r v] show ?case by simp
  qed
  have rep3: "list_all (represents (heap w3)) ts"
    unfolding list_all_iff
  proof
    fix t assume t: "t \<in> set ts"
    with c(4) have "represents (heap w) t" by (simp add: list_all_iff)
    moreover have "\<And>y. y \<in> set (addrs t) \<Longrightarrow> heap w3 y = heap w y"
      using t xs by (auto simp: w3eq)
    ultimately show "represents (heap w3) t" by (rule represents_frame)
  qed
  have s3: "heap w3 s = Some (OSubmission sub1)" using xs by (simp add: w3eq)
  from all [OF subset_refl rep3 xs(4) xs(3) s3]
  have "assign_submission_all d r s (map root ts) w3 = Inr (reparented r s ts w3)" .
  moreover have "reparented r s ts w3 = reparented r s [CommentNode x i ts] w"
    unfolding w3eq sub1_def
    by (rule reparented_CommentNode [OF c(1) CommentNode.prems(4) xs(2) xs(3) xs(1)])
  ultimately show ?case using step by simp
qed


lemma Comment_parent_in_index:
  assumes "heap w a = Some (OComment c)"
    and "map_of (c_dict c) ''parent_id'' = Some (VStr pid)"
    and "c_submission c = Some (Some s)"
    and "heap w s = Some (OSubmission sub)"
    and "pid \<noteq> Submission_fullname r sub"
    and "s_comments_by_id sub pid = Some p"
  shows "Comment_parent r a w = Inr (p, w)"
  using assms Comment_getattr_cached [OF assms(1) assms(2), of r]
    Comment_submission_cached [OF assms(1) assms(3), of r]
  by (simp add: Comment_parent_def)

lemma map_of_rev_distinct:
  "distinct (map fst xs) \<Longrightarrow> (k, y) \<in> set xs \<Longrightarrow> map_of (rev xs) k = Some y"
  by (simp add: distinct_rev rev_map [symmetric])

text \<open>
  C8. Take a comment whose tree of replies is in the store, and a submission outside
  it. Assigning the submission to the comment's \<open>submission\<close> attribute returns, given
  room for the nested setter calls. Afterwards the index of the submission is the old
  index overridden by the comments of the tree under their fullnames, in the order
  the setter met them; when the fullnames in the tree are pairwise different, every
  comment of the tree, the assigned one first, is found in the index under its own
  fullname. Every object of the tree has the submission assigned, and no request was
  sent. A comment of this submission whose loaded \<open>parent_id\<close> is a key of the index
  gets from \<open>parent()\<close> the very object the index holds, with the store unchanged.
\<close>

theorem submission_setter_registers:
  assumes "represents (heap w) t" and "distinct (addrs t)" and "s \<notin> set (addrs t)"
    and "heap w s = Some (OSubmission sub)" and "tree_depth t \<le> fuel"
  shows "\<exists>w' sub'. assign_submission fuel r s (root t) w = Inr w'
     \<and> heap w' s = Some (OSubmission sub') \<and> s_id sub' = s_id sub
     \<and> s_comments_by_id sub'
         = s_comments_by_id sub ++ map_of (rev (registrations (kinds r ''comment'') t))
     \<and> (distinct (map fst (registrations (kinds r ''comment'') t)) \<longrightarrow>
          (\<forall>(k, y) \<in> set (registrations (kinds r ''comment'') t). s_comments_by_id sub' k = Some y))
     \<and> (\<forall>y \<in> set (addrs t). heap w' y = map_option (reparent s) (heap w y))
     \<and> (\<forall>y c. y \<in> set (addrs t) \<and> heap w y = Some (OComment c) \<longrightarrow>
          (\<exists>c'. heap w' y = Some (OComment c') \<and> c_submission c' = Some (Some s)
                \<and> c_dict c' = c_dict c))
     \<and> (\<forall>y. y \<notin> set (addrs t) \<and> y \<noteq> s \<longrightarrow> heap w' y = heap w y)
     \<and> requests w' = requests w
     \<and> (\<forall>z cz k p. heap w' z = Some (OComment cz) \<and> c_submission cz = Some (Some s)
            \<and> map_of (c_dict cz) ''parent_id'' = Some (VStr k)
            \<and> k \<noteq> Submission_fullname r sub' \<and> s_comments_by_id sub' k = Some p
          \<longrightarrow> Comment_parent r z w' = Inr (p, w'))"
proof -
  let ?regs = "registrations (kinds r ''comment'') t"
  define w' where "w' = reparented r s [t] w"
  define sub' where "sub' = sub\<lparr>s_comments_by_id := s_comments_by_id sub ++ map_of (rev ?regs)\<rparr>"
  have run: "assign_submission fuel r s (root t) w = Inr w'"
    unfolding w'_def using assms by (rule assign_tree)
  have hs: "heap w' s = Some (OSubmission sub')"
    using assms(3,4) by (simp add: w'_def sub'_def reparented_def)
  have idx: "s_comments_by_id sub' = s_comments_by_id sub ++ map_of (rev ?regs)"
    by (simp add: sub'_def)
  have dist: "distinct (map fst ?regs) \<longrightarrow> (\<forall>(k, y) \<in> set ?regs. s_comments_by_id sub' k = Some y)"
    by (auto simp: idx map_add_def map_of_rev_distinct)
  have inside: "\<forall>y \<in> set (addrs t). heap w' y = map_option (reparent s) (heap w y)"
    by (simp add: w'_def reparented_def)
  have comments: "\<forall>y c. y \<in> set (addrs t) \<and> heap w y = Some (OComment c) \<longrightarrow>
          (\<exists>c'. heap w' y = Some (OComment c') \<and> c_submission c' = Some (Some s)
                \<and> c_dict c' = c_dict c)"
    using inside by auto
  have outside: "\<forall>y. y \<notin> set (addrs t) \<and> y \<noteq> s \<longrightarrow> heap w' y = heap w y"
    by (simp add: w'_def reparented_def)
  have req: "requests w' = requests w"
    by (simp add: w'_def reparented_def)
  have par: "\<forall>z cz k p. heap w' z = Some (OComment cz) \<and> c_submission cz = Some (Some s)
            \<and> map_of (c_dict cz) ''parent_id'' = Some (VStr k)
            \<and> k \<noteq> Submission_fullname r sub' \<and> s_comments_by_id sub' k = Some p
          \<longrightarrow> Comment_parent r z w' = Inr (p, w')"
    using hs by (auto intro: Comment_parent_in_index)
  have "s_id sub' = s_id sub" by (simp add: sub'_def)
  with run hs idx dist inside comments outside req par show ?thesis by blast
qed

theorem submission_setter_registers_witness:
  "\<exists>w' sub'. assign_submission 2 test_reddit 0 1 reply_world = Inr w'
     \<and> heap w' 0 = Some (OSubmission sub')
     \<and> s_comments_by_id sub' ''t1_p'' = Some 1 \<and> s_comments_by_id sub' ''t1_c1'' = Some 2
     \<and> heap w' 2 = Some (OComment \<lparr>c_dict = [(''id'', VStr ''c1''), (''parent_id'', VStr ''t1_p'')],
                          c_replies = CommentForest 0 [], c_submission = Some (Some 0), c_fetched = True\<rparr>)
     \<and> heap w' 3 = Some (OMore [(''submission'', VRef 0), (''id'', VStr ''_''), (''parent_id'', VStr ''t1_p'')])
     \<and> requests w' = []
     \<and> Comment_parent test_reddit 2 w' = Inr (1, w')"
proof -
  have rep: "represents (heap reply_world) reply_tree"
    by (simp add: reply_world_def reply_tree_def)
  have d: "distinct (addrs reply_tree)" "0 \<notin> set (addrs reply_tree)" "tree_depth reply_tree \<le> 2"
    by (simp_all add: reply_tree_def)
  have s: "heap reply_world 0 = Some (OSubmission \<lparr>s_id = ''s'', s_comments_by_id = Map.empty\<rparr>)"
    by (simp add: reply_world_def)
  have regs: "registrations (kinds test_reddit ''comment'') reply_tree = [(''t1_p'', 1), (''t1_c1'', 2)]"
    by (simp add: reply_tree_def test_reddit_def)
  from submission_setter_registers [OF rep d(1) d(2) s d(3), of test_reddit]
  obtain w' sub' where
    run: "assign_submission 2 test_reddit 0 (root reply_tree) reply_world = Inr w'"
    and hs: "heap w' 0 = Some (OSubmission sub')" "s_id sub' = ''s''"
    and dist: "distinct (map fst (registrations (kinds test_reddit ''comment'') reply_tree)) \<longrightarrow>
          (\<forall>(k, y) \<in> set (registrations (kinds test_reddit ''comment'') reply_tree).
              s_comments_by_id sub' k = Some y)"
    and inside: "\<forall>y \<in> set (addrs reply_tree). heap w' y = map_option (reparent 0) (heap reply_world y)"
    and req: "requests w' = requests reply_world"
    and par: "\<forall>z cz k p. heap w' z = Some (OComment cz) \<and> c_submission cz = Some (Some 0)
            \<and> map_of (c_dict cz) ''parent_id'' = Some (VStr k)
            \<and> k \<noteq> Submission_fullname test_reddit sub' \<and> s_comments_by_id sub' k = Some p
          \<longrightarrow> Comment_parent test_reddit z w' = Inr (p, w')"
    by auto
  from dist have i1: "s_comments_by_id sub' ''t1_p'' = Some 1" and i2: "s_comments_by_id sub' ''t1_c1'' = Some 2"
    by (simp_all add: regs)
  from inside have h2: "heap w' 2 = Some (OComment \<lparr>c_dict = [(''id'', VStr ''c1''), (''parent_id'', VStr ''t1_p'')],
                          c_replies = CommentForest 0 [], c_submission = Some (Some 0), c_fetched = True\<rparr>)"
    and h3: "heap w' 3 = Some (OMore [(''submission'', VRef 0), (''id'', VStr ''_''), (''parent_id'', VStr ''t1_p'')])"
    by (simp_all add: reply_tree_def reply_world_def)
  have fn: "''t1_p'' \<noteq> Submission_fullname test_reddit sub'"
    using hs(2) by (simp add: Submission_fullname_def test_reddit_def)
  from par [rule_format, of 2 _ "''t1_p''" 1] h2 i1 fn
  have p: "Comment_parent test_reddit 2 w' = Inr (1, w')" by simp
  from req have "requests w' = []" by (simp add: reply_world_def)
  with run hs(1) i1 i2 h2 h3 p show ?thesis by (auto simp: reply_tree_def)
qed

subsection \<open>Refreshing a comment\<close>

























end
